theory Spec2Isabelle
  imports Main "HOL-Library.AList" "HOL-Library.Sublist"
begin

text \<open>
  The repository has two parts: the transform worker that Expo puts in front of the
  default transform of the Metro bundler (\<open>transform-worker.js\<close>), and the web image
  component \<open>ImageWrapper\<close> with its hooks. Both are modelled below, function by
  function, and the statements of the specification about them are settled.

  The worker is a function of its arguments, of the two environment variables it
  reads and of its collaborators (the default transform, the SVG, CSS and Sass
  compilers). The collaborators are parameters; every call of one is recorded, so a
  result says which of them ran and on what.

  The component is a state machine: the slots of its hooks are the state, and an event
  is a render with given props, the end of a started fetch, or the teardown. What the
  component does outside (fetch, object URLs, console, callbacks) is recorded in the
  order it happens.
\<close>

section \<open>JavaScript values shared by both source files\<close>

text \<open>
  A JavaScript string is represented by the bytes of its UTF-8 encoding (a \<open>string\<close>
  here is a list of 8-bit characters), and a \<open>Buffer\<close> by its bytes. So
  \<open>Buffer.from(str)\<close> keeps the bytes, and \<open>buf.toString()\<close> decodes them as UTF-8:
  well-formed sequences are kept, and every maximal part that is not well-formed
  becomes U+FFFD (the bytes \<open>EF BF BD\<close>), as in the decoder of the Encoding standard.
  A JavaScript object whose fields the code does not fix is an association list from
  field names to values (insertion order kept, as in JavaScript).
\<close>

datatype jsval =
    JNull
  | JBool bool
  | JNum int
  | JStr string
  | JArr "jsval list"
  | JObj "(string \<times> jsval) list"

type_synonym js_object = "(string \<times> jsval) list"

type_synonym buffer = string

datatype js_error = JsError string

definition Buffer_from :: "string \<Rightarrow> buffer" where
  "Buffer_from s = s"

text \<open>
  The decoder reads one byte at a time. \<open>bytes_needed\<close> is the number of continuation bytes
  still expected, \<open>lower_bound\<close> and \<open>upper_bound\<close> bound the next one, \<open>held\<close> is the
  sequence read so far and \<open>decoded\<close> the output.
\<close>

definition replacement :: string where
  "replacement = [CHR 0xEF, CHR 0xBF, CHR 0xBD]"

record utf8_state =
  bytes_needed :: nat
  lower_bound :: nat
  upper_bound :: nat
  held :: string
  decoded :: string

definition utf8_init :: utf8_state where
  "utf8_init = \<lparr>bytes_needed = 0, lower_bound = 0x80, upper_bound = 0xBF, held = [], decoded = []\<rparr>"

text \<open>A byte read when no sequence is open.\<close>

definition utf8_lead :: "utf8_state \<Rightarrow> char \<Rightarrow> utf8_state" where
  "utf8_lead st b =
     (let n = (of_char b :: nat) in
      if n \<le> 0x7F then st\<lparr>decoded := decoded st @ [b]\<rparr>
      else if 0xC2 \<le> n \<and> n \<le> 0xDF then
        st\<lparr>bytes_needed := 1, lower_bound := 0x80, upper_bound := 0xBF, held := [b]\<rparr>
      else if 0xE0 \<le> n \<and> n \<le> 0xEF then
        st\<lparr>bytes_needed := 2, lower_bound := (if n = 0xE0 then 0xA0 else 0x80),
           upper_bound := (if n = 0xED then 0x9F else 0xBF), held := [b]\<rparr>
      else if 0xF0 \<le> n \<and> n \<le> 0xF4 then
        st\<lparr>bytes_needed := 3, lower_bound := (if n = 0xF0 then 0x90 else 0x80),
           upper_bound := (if n = 0xF4 then 0x8F else 0xBF), held := [b]\<rparr>
      else st\<lparr>decoded := decoded st @ replacement\<rparr>)"

text \<open>
  A byte read inside a sequence continues it, or ends it in error; in that case the
  byte is read again as the start of the next sequence.
\<close>

definition utf8_step :: "utf8_state \<Rightarrow> char \<Rightarrow> utf8_state" where
  "utf8_step st b =
     (if bytes_needed st = 0 then utf8_lead st b
      else if lower_bound st \<le> of_char b \<and> (of_char b :: nat) \<le> upper_bound st then
        (if bytes_needed st = 1
         then st\<lparr>bytes_needed := 0, held := [], decoded := decoded st @ held st @ [b]\<rparr>
         else st\<lparr>bytes_needed := bytes_needed st - 1, lower_bound := 0x80, upper_bound := 0xBF, held := held st @ [b]\<rparr>)
      else utf8_lead (st\<lparr>bytes_needed := 0, lower_bound := 0x80, upper_bound := 0xBF, held := [],
                         decoded := decoded st @ replacement\<rparr>) b)"

definition toString :: "buffer \<Rightarrow> string" where
  "toString b =
     (let st = foldl utf8_step utf8_init b
      in if bytes_needed st = 0 then decoded st else decoded st @ replacement)"

text \<open>The object spread \<open>{...a, ...b}\<close>: the fields of \<open>a\<close>, each field of \<open>b\<close> written over them.\<close>

definition spread :: "js_object \<Rightarrow> js_object \<Rightarrow> js_object" where
  "spread a b = foldl (\<lambda>acc kv. AList.update (fst kv) (snd kv) acc) a b"

text \<open>Truthiness of an optional string (\<open>undefined\<close>, \<open>null\<close> and \<open>''\<close> are falsy).\<close>

definition truthy :: "string option \<Rightarrow> bool" where
  "truthy v = (case v of None \<Rightarrow> False | Some s \<Rightarrow> s \<noteq> [])"

section \<open>Regular expressions of the transform worker\<close>

text \<open>
  The three regular expressions of \<open>transform-worker.js\<close> use literals, character
  classes, groups, alternation and \<open>?\<close> only. \<open>rests r s\<close> lists, in the order a
  backtracking matcher tries them, what is left of \<open>s\<close> after \<open>r\<close> has matched a
  prefix of it.
\<close>

datatype regex =
    Lit string
  | OneOf string
  | Seq regex regex
  | Alt regex regex
  | Opt regex

fun rests :: "regex \<Rightarrow> string \<Rightarrow> string list" where
  "rests (Lit l) s = (if take (length l) s = l then [drop (length l) s] else [])"
| "rests (OneOf cs) s = (case s of [] \<Rightarrow> [] | c # t \<Rightarrow> if c \<in> set cs then [t] else [])"
| "rests (Seq a b) s = concat (map (rests b) (rests a s))"
| "rests (Alt a b) s = rests a s @ rests b s"
| "rests (Opt a) s = rests a s @ [s]"

text \<open>\<open>r$\<close> tried at one position: some way of matching \<open>r\<close> uses up the input.\<close>

definition match_to_end :: "regex \<Rightarrow> string \<Rightarrow> bool" where
  "match_to_end r s = ([] \<in> set (rests r s))"

text \<open>\<open>/r$/.test(s)\<close>: the pattern has no \<open>^\<close>, so every start position is tried.\<close>

definition test_end :: "regex \<Rightarrow> string \<Rightarrow> bool" where
  "test_end r s = list_ex (\<lambda>i. match_to_end r (drop i s)) [0..<Suc (length s)]"

text \<open>\<open>/^r$/\<close>: only position 0 is tried.\<close>

definition test_whole :: "regex \<Rightarrow> string \<Rightarrow> bool" where
  "test_whole r s = match_to_end r s"

text \<open>The denotation of a regular expression, used to characterise the matchers.\<close>

fun lang :: "regex \<Rightarrow> string set" where
  "lang (Lit l) = {l}"
| "lang (OneOf cs) = {[c] | c. c \<in> set cs}"
| "lang (Seq a b) = {u @ v | u v. u \<in> lang a \<and> v \<in> lang b}"
| "lang (Alt a b) = lang a \<union> lang b"
| "lang (Opt a) = insert [] (lang a)"

section \<open>The transform worker (\<open>transform-worker.js\<close>)\<close>

subsection \<open>Data\<close>

text \<open>
  The options record of a transform invocation. \<open>environment\<close> is
  \<open>options.customTransformOptions?.environment\<close>; \<open>None\<close> stands for \<open>undefined\<close>.
\<close>

record transform_options =
  opt_type :: string
  platform :: "string option"
  dev :: bool
  minify :: bool
  environment :: "string option"

record output_item =
  out_type :: string
  out_data :: js_object

record transform_result =
  dependencies :: "jsval list"
  outputs :: "output_item list"

record css_module_result =
  cm_output :: string
  cm_css :: buffer

text \<open>The two variables of \<open>process.env\<close> that \<open>transform\<close> reads.\<close>

record process_env =
  EXPO_METRO_SVG_MODULES :: "string option"
  EXPO_METRO_CSS_MODULES :: "string option"

subsection \<open>External collaborators\<close>

text \<open>
  The host bundler's default transform and the third-party compilers are not part of
  the repository: they are parameters. A collaborator that can throw (or whose promise
  can reject) returns \<open>Inl\<close> of the error. \<open>matchCssModule\<close>, \<open>matchSass\<close>,
  \<open>compileSass\<close>, \<open>transformPostCssModule\<close>, \<open>transformCssModuleWeb\<close> and
  \<open>wrapDevelopmentCSS\<close> are modules of the repository that are not among the sources
  at hand; they are parameters too. \<open>regexp_test\<close> is the JavaScript regular expression
  engine on a pattern text, used only for a pattern this theory does not parse.
\<close>

record host =
  metro_transform :: "js_object \<Rightarrow> string \<Rightarrow> string \<Rightarrow> buffer \<Rightarrow> transform_options \<Rightarrow> js_error + transform_result"
  svgr_resolveConfig :: "string \<Rightarrow> js_error + js_object option"
  svgr_transform :: "string \<Rightarrow> js_object \<Rightarrow> js_error + string"
  path_dirname :: "string \<Rightarrow> string"
  matchCssModule :: "string \<Rightarrow> bool"
  transformPostCssModule :: "string \<Rightarrow> string \<Rightarrow> string \<Rightarrow> js_error + string"
  matchSass :: "string \<Rightarrow> string option"
  compileSass :: "string \<Rightarrow> string \<Rightarrow> string \<Rightarrow> string \<Rightarrow> js_error + string"
  transformCssModuleWeb :: "string \<Rightarrow> string \<Rightarrow> string \<Rightarrow> bool \<Rightarrow> bool \<Rightarrow> js_error + css_module_result"
  lightningcss_transform :: "string \<Rightarrow> buffer \<Rightarrow> string \<Rightarrow> bool \<Rightarrow> js_error + buffer"
  wrapDevelopmentCSS :: "string \<Rightarrow> string \<Rightarrow> string"
  countLines :: "string \<Rightarrow> nat"
  regexp_test :: "string \<Rightarrow> string \<Rightarrow> js_error + bool"

text \<open>
  Every call of a compiler or of the default transform is recorded with its arguments,
  so that a result says which collaborators ran, in which order, and on what.
\<close>

datatype call =
    MetroTransform js_object string string buffer transform_options
  | SvgrResolveConfig string
  | SvgrTransform string js_object
  | PostCss string string string
  | SassCompile string string string string
  | CssModuleWeb string string string bool bool
  | LightningCss string buffer string bool

type_synonym 'a io = "call list \<times> (js_error + 'a)"

definition io_return :: "'a \<Rightarrow> 'a io" where
  "io_return x = ([], Inr x)"

definition io_call :: "call \<Rightarrow> js_error + 'a \<Rightarrow> 'a io" where
  "io_call c r = ([c], r)"

text \<open>\<open>await\<close>: a rejection ends the function; otherwise the rest runs after the calls made so far.\<close>

definition io_bind :: "'a io \<Rightarrow> ('a \<Rightarrow> 'b io) \<Rightarrow> 'b io" where
  "io_bind m f =
     (case snd m of
        Inl e \<Rightarrow> (fst m, Inl e)
      | Inr x \<Rightarrow> (fst m @ fst (f x), snd (f x)))"

text \<open>\<open>metro_transform_worker_1.default.transform(config, projectRoot, filename, data, options)\<close>.\<close>

definition metro :: "host \<Rightarrow> js_object \<Rightarrow> string \<Rightarrow> string \<Rightarrow> buffer \<Rightarrow> transform_options \<Rightarrow> transform_result io" where
  "metro h config projectRoot filename data options =
     io_call (MetroTransform config projectRoot filename data options)
       (metro_transform h config projectRoot filename data options)"

subsection \<open>\<open>matchSvgModule\<close> and the other file-name patterns\<close>

text \<open>\<open>/\.module(\.(native|ios|android|web))?\.svg$/\<close>\<close>

definition svg_module_regex :: regex where
  "svg_module_regex =
     Seq (Lit ''.module'')
       (Seq (Opt (Seq (Lit ''.'')
                (Alt (Lit ''native'') (Alt (Lit ''ios'') (Alt (Lit ''android'') (Lit ''web''))))))
          (Lit ''.svg''))"

definition matchSvgModule :: "string \<Rightarrow> bool" where
  "matchSvgModule filePath = test_end svg_module_regex filePath"

text \<open>\<open>/\.(s?css|sass)$/\<close>\<close>

definition css_regex :: regex where
  "css_regex = Seq (Lit ''.'') (Alt (Seq (Opt (Lit ''s'')) (Lit ''css'')) (Lit ''sass''))"

definition css_file :: "string \<Rightarrow> bool" where
  "css_file filename = test_end css_regex filename"

text \<open>
  The template literal \<open>`^app/\\+html(\\.${options.platform})?\\.([tj]sx?|[cm]js)?$`\<close>.
  \<open>template_text\<close> is what \<open>${options.platform}\<close> inserts: the platform, or the
  text \<open>undefined\<close>. The text is pasted into the pattern, so it is read as pattern
  syntax; \<open>plain_text\<close> holds when none of its characters has a meaning in a pattern,
  and then the pattern is \<open>server_html_regex\<close>.
\<close>

definition template_text :: "string option \<Rightarrow> string" where
  "template_text p = (case p of None \<Rightarrow> ''undefined'' | Some s \<Rightarrow> s)"

definition pattern_chars :: string where
  "pattern_chars = [CHR 0x5C, CHR ''^'', CHR ''$'', CHR ''.'', CHR ''*'', CHR ''+'', CHR ''?'',
                    CHR ''('', CHR '')'', CHR ''['', CHR '']'', CHR ''{'', CHR ''}'', CHR ''|'']"

definition plain_text :: "string \<Rightarrow> bool" where
  "plain_text s = list_all (\<lambda>c. c \<notin> set pattern_chars) s"

definition server_html_source :: "string \<Rightarrow> string" where
  "server_html_source p =
     ''^app/'' @ [CHR 0x5C] @ ''+html('' @ [CHR 0x5C] @ ''.'' @ p @ '')?'' @ [CHR 0x5C]
       @ ''.([tj]sx?|[cm]js)?$''"

definition server_html_regex :: "string \<Rightarrow> regex" where
  "server_html_regex p =
     Seq (Lit ''app/+html'')
       (Seq (Opt (Seq (Lit ''.'') (Lit p)))
          (Seq (Lit ''.'')
             (Opt (Alt (Seq (OneOf ''tj'') (Seq (Lit ''s'') (Opt (Lit ''x''))))
                       (Seq (OneOf ''cm'') (Lit ''js''))))))"

text \<open>\<open>filename.match(new RegExp(...))\<close>, as a truth value; \<open>new RegExp\<close> can throw.\<close>

definition server_html_match :: "host \<Rightarrow> string option \<Rightarrow> string \<Rightarrow> js_error + bool" where
  "server_html_match h p filename =
     (if plain_text (template_text p)
      then Inr (test_whole (server_html_regex (template_text p)) filename)
      else regexp_test h (server_html_source (template_text p)) filename)"

subsection \<open>\<open>transformSvg\<close>\<close>

definition defaultSVGRConfig :: "bool \<Rightarrow> js_object" where
  "defaultSVGRConfig isNotNative =
     [(''native'', JBool (\<not> isNotNative)),
      (''plugins'', JArr [JStr ''@svgr/plugin-svgo'', JStr ''@svgr/plugin-jsx'']),
      (''svgoConfig'', JObj
         [(''plugins'', JArr
             [JObj [(''name'', JStr ''preset-default''),
                    (''params'', JObj
                       [(''overrides'', JObj
                           [(''inlineStyles'', JObj [(''onlyMatchedOnce'', JBool False)]),
                            (''removeViewBox'', JBool False),
                            (''removeUnknownsAndDefaults'', JBool False),
                            (''convertColors'', JBool False)])])]])])]"

definition transformSvg :: "host \<Rightarrow> js_object \<Rightarrow> string \<Rightarrow> string \<Rightarrow> buffer \<Rightarrow> transform_options \<Rightarrow> transform_result io" where
  "transformSvg h config projectRoot filename data options =
     (let isNotNative = (\<not> truthy (platform options) \<or> platform options = Some ''web'')
      in io_bind
           (io_call (SvgrResolveConfig (path_dirname h filename))
              (svgr_resolveConfig h (path_dirname h filename)))
           (\<lambda>svgUserConfig.
              let svgrConfig =
                    (case svgUserConfig of
                       Some u \<Rightarrow> spread (defaultSVGRConfig isNotNative) u
                     | None \<Rightarrow> defaultSVGRConfig isNotNative)
              in io_bind
                   (io_call (SvgrTransform (toString data) svgrConfig)
                      (svgr_transform h (toString data) svgrConfig))
                   (\<lambda>code. metro h config projectRoot filename (Buffer_from code) options)))"

subsection \<open>\<open>transformCss\<close>\<close>

text \<open>The \<open>css\<close> field appended to the data of the synthetic module.\<close>

definition css_metadata :: "host \<Rightarrow> string \<Rightarrow> jsval" where
  "css_metadata h cssCode =
     JObj [(''code'', JStr cssCode),
           (''lineCount'', JNum (int (countLines h cssCode))),
           (''map'', JArr []),
           (''functionMap'', JNull)]"

text \<open>\<open>jsModuleResults.output[0]?.data\<close>, spread into a fresh object: no field when there is no first output.\<close>

definition first_output_data :: "transform_result \<Rightarrow> js_object" where
  "first_output_data r = (case outputs r of [] \<Rightarrow> [] | item # _ \<Rightarrow> out_data item)"

definition css_module :: "host \<Rightarrow> transform_result \<Rightarrow> string \<Rightarrow> transform_result" where
  "css_module h jsModuleResults cssCode =
     \<lparr>dependencies = dependencies jsModuleResults,
      outputs = [\<lparr>out_type = ''js/module'',
                 out_data = AList.update ''css'' (css_metadata h cssCode)
                              (first_output_data jsModuleResults)\<rparr>]\<rparr>"

definition transformCss :: "host \<Rightarrow> js_object \<Rightarrow> string \<Rightarrow> string \<Rightarrow> buffer \<Rightarrow> transform_options \<Rightarrow> transform_result io" where
  "transformCss h config projectRoot filename data options =
     (if platform options \<noteq> Some ''web'' then
        (let code = (if matchCssModule h filename
                     then ''module.exports={ unstable_styles: {} };'' else '''')
         in metro h config projectRoot filename (Buffer_from code) options)
      else
        io_bind
          (io_call (PostCss projectRoot (toString data) filename)
             (transformPostCssModule h projectRoot (toString data) filename))
          (\<lambda>code1.
        io_bind
          (case matchSass h filename of
             Some syntax \<Rightarrow>
               io_call (SassCompile projectRoot filename code1 syntax)
                 (compileSass h projectRoot filename code1 syntax)
           | None \<Rightarrow> io_return code1)
          (\<lambda>code.
        if matchCssModule h filename then
          io_bind
            (io_call (CssModuleWeb filename code projectRoot (dev options) (minify options))
               (transformCssModuleWeb h filename code projectRoot (dev options) (minify options)))
            (\<lambda>results.
          io_bind
            (metro h config projectRoot filename (Buffer_from (cm_output results)) options)
            (\<lambda>jsModuleResults.
          io_return (css_module h jsModuleResults (toString (cm_css results)))))
        else
          io_bind
            (io_call (LightningCss filename (Buffer_from code) projectRoot (minify options))
               (lightningcss_transform h filename (Buffer_from code) projectRoot (minify options)))
            (\<lambda>cssResults.
          io_bind
            (metro h config projectRoot filename
               (if dev options then Buffer_from (wrapDevelopmentCSS h code filename)
                else Buffer_from '''')
               options)
            (\<lambda>jsModuleResults.
          io_return (css_module h jsModuleResults (toString cssResults)))))))"

subsection \<open>\<open>transform\<close>\<close>

definition server_html_notice :: string where
  "server_html_notice =
     [CHR 0x22] @ ''> The server-only +html file was removed from the client JS bundle by Expo CLI.''
       @ [CHR 0x22]"

definition transform :: "host \<Rightarrow> process_env \<Rightarrow> js_object \<Rightarrow> string \<Rightarrow> string \<Rightarrow> buffer \<Rightarrow> transform_options \<Rightarrow> transform_result io" where
  "transform h env config projectRoot filename data options =
     (if truthy (EXPO_METRO_SVG_MODULES env) \<and> matchSvgModule filename then
        transformSvg h config projectRoot filename data (options\<lparr>opt_type := ''module''\<rparr>)
      else if opt_type options = ''asset'' then
        metro h config projectRoot filename data options
      else if truthy (EXPO_METRO_CSS_MODULES env) \<and> css_file filename then
        transformCss h config projectRoot filename data options
      else
        (case (if environment options = Some ''client''
               then server_html_match h (platform options) filename
               else Inr False) of
           Inl e \<Rightarrow> ([], Inl e)
         | Inr True \<Rightarrow>
             metro h config projectRoot filename
               (if \<not> minify options then Buffer_from server_html_notice else Buffer_from '''')
               options
         | Inr False \<Rightarrow> metro h config projectRoot filename data options))"

section \<open>The image component (\<open>ImageWrapper\<close>, second file of \<open>src/unnamed/part_000\<close>)\<close>

subsection \<open>Data\<close>

text \<open>
  \<open>Object.is\<close> compares objects by identity, and the hooks compare their dependencies
  with it. Every object therefore carries its identity: \<open>Given n\<close> for an object that
  the caller or another hook handed in, \<open>Made n\<close> for the \<open>n\<close>-th object the component
  creates itself.
\<close>

datatype obj_id = Given nat | Made nat

record image_source =
  ident :: obj_id
  uri :: "string option"
  headers :: "(string \<times> string) list option"
  width :: "nat option"
  height :: "nat option"

text \<open>
  The decoders and predicates the component imports from \<open>../utils\<close>; those files are
  not among the sources at hand, so they are parameters.
\<close>

record image_utils =
  isBlurhashString :: "string \<Rightarrow> bool"
  isThumbhashString :: "string \<Rightarrow> bool"
  thumbHashStringToDataURL :: "string \<Rightarrow> string"

text \<open>\<open>Object.is(a, b)\<close> for two values that are an object or \<open>null\<close>/\<open>undefined\<close>.\<close>

definition same_ref :: "image_source option \<Rightarrow> image_source option \<Rightarrow> bool" where
  "same_ref a b = (map_option ident a = map_option ident b)"

text \<open>\<open>source?.uri || ''\<close>\<close>

definition uri_or_empty :: "image_source option \<Rightarrow> string" where
  "uri_or_empty src =
     (case src of None \<Rightarrow> [] | Some s \<Rightarrow> (case uri s of None \<Rightarrow> [] | Some u \<Rightarrow> u))"

text \<open>\<open>str.replace(/pat/, rep)\<close> for a pattern that is a literal text: the first occurrence is replaced.\<close>

fun replace_first :: "string \<Rightarrow> string \<Rightarrow> string \<Rightarrow> string" where
  "replace_first pat rep [] = (if pat = [] then rep else [])"
| "replace_first pat rep (c # cs) =
     (if take (length pat) (c # cs) = pat then rep @ drop (length pat) (c # cs)
      else c # replace_first pat rep cs)"

subsection \<open>\<open>useThumbhash\<close> and \<open>useImageHashes\<close>\<close>

text \<open>
  A \<open>useMemo\<close> slot holds the dependencies and the value of the last computation;
  \<open>None\<close> is the slot of a component that has not rendered yet. Creating an object takes
  the next identity from a counter, which the hooks pass along.
\<close>

type_synonym thumb_slot = "((string \<times> bool) \<times> image_source option) option"

definition strippedThumbhashString :: "image_source option \<Rightarrow> string" where
  "strippedThumbhashString src =
     (case src of
        None \<Rightarrow> []
      | Some s \<Rightarrow> (case uri s of None \<Rightarrow> [] | Some u \<Rightarrow> replace_first ''thumbhash:/'' [] u))"

definition thumbhash_factory :: "image_utils \<Rightarrow> nat \<Rightarrow> string \<Rightarrow> bool \<Rightarrow> nat \<times> image_source option" where
  "thumbhash_factory x fresh stripped isThumbhash =
     (if isThumbhash
      then (Suc fresh, Some \<lparr>ident = Made fresh, uri = Some (thumbHashStringToDataURL x stripped),
                              headers = None, width = None, height = None\<rparr>)
      else (fresh, None))"

definition useThumbhash :: "image_utils \<Rightarrow> thumb_slot \<Rightarrow> nat \<Rightarrow> image_source option \<Rightarrow> thumb_slot \<times> nat \<times> image_source option" where
  "useThumbhash x slot fresh src =
     (let isThumbhash = isThumbhashString x (uri_or_empty src);
          stripped = strippedThumbhashString src;
          recomputed = thumbhash_factory x fresh stripped isThumbhash
      in case slot of
           None \<Rightarrow> (Some ((stripped, isThumbhash), snd recomputed), fst recomputed, snd recomputed)
         | Some memo \<Rightarrow>
             if fst memo = (stripped, isThumbhash) then (slot, fresh, snd memo)
             else (Some ((stripped, isThumbhash), snd recomputed), fst recomputed, snd recomputed))"

record hashes =
  resolvedSource :: "image_source option"
  isImageHash :: bool

type_synonym hashes_slot = "((image_source option \<times> image_source option) \<times> hashes) option"

text \<open>\<open>blurhash ?? thumbhash ?? null\<close>\<close>

definition first_defined :: "image_source option \<Rightarrow> image_source option \<Rightarrow> image_source option" where
  "first_defined blurhash thumbhash = (case blurhash of Some b \<Rightarrow> Some b | None \<Rightarrow> thumbhash)"

text \<open>
  \<open>useBlurhash\<close> is a hook of a file that is not among the sources; the value it returns
  in a render is the argument \<open>blurhash\<close>. The dependencies of the memo are
  \<open>[blurhash, thumbhash]\<close>, as in the source.
\<close>

definition useImageHashes :: "image_utils \<Rightarrow> thumb_slot \<Rightarrow> hashes_slot \<Rightarrow> nat \<Rightarrow> image_source option \<Rightarrow> image_source option \<Rightarrow> thumb_slot \<times> hashes_slot \<times> nat \<times> hashes" where
  "useImageHashes x tslot hslot fresh src blurhash =
     (let t = useThumbhash x tslot fresh src;
          thumbhash = snd (snd t);
          isHash = (isBlurhashString x (uri_or_empty src) \<or> isThumbhashString x (uri_or_empty src));
          recomputed = \<lparr>resolvedSource = (if isHash then first_defined blurhash thumbhash else src),
                        isImageHash = isHash\<rparr>
      in case hslot of
           None \<Rightarrow> (fst t, Some ((blurhash, thumbhash), recomputed), fst (snd t), recomputed)
         | Some memo \<Rightarrow>
             if same_ref (fst (fst memo)) blurhash \<and> same_ref (snd (fst memo)) thumbhash
             then (fst t, hslot, fst (snd t), snd memo)
             else (fst t, Some ((blurhash, thumbhash), recomputed), fst (snd t), recomputed))"

subsection \<open>\<open>useHeaders\<close>\<close>

text \<open>What the hook does to the world outside the component, in the order it does it.\<close>

datatype effect =
    Fetch string "(string \<times> string) list" string
  | CreateObjectURL string
  | RevokeObjectURL string
  | ConsoleError js_error
  | OnErrorCall nat image_source
  | OnMountCall nat
  | UnhandledRejection js_error

text \<open>
  How a started fetch ends: \<open>fetch\<close> rejects, the response is not ok, \<open>result.blob()\<close>
  rejects, or the blob arrives and \<open>URL.createObjectURL\<close> names it (a blob URL is
  \<open>blob:\<close> followed by an origin and an identifier, here the argument).
\<close>

datatype fetch_outcome =
    Rejected js_error
  | NotOk nat string
  | BlobRejected js_error
  | Fulfilled string

text \<open>
  The list \<open>events?.onError\<close>: absent, or a list whose entries can be \<open>null\<close>. A
  callback is known by a number; called, it returns, or it throws the error given.
\<close>

datatype callback = Returns (cb_id: nat) | Throws (cb_id: nat) (thrown: js_error)

type_synonym callbacks = "callback option list option"

text \<open>
  The list \<open>events?.onMount\<close>. Its callbacks run inside an effect of the component; what
  React does with an effect that throws is not in the sources at hand, so these
  callbacks are taken to return.
\<close>

type_synonym mount_callbacks = "nat option list option"

text \<open>The closure of the asynchronous function an effect has started: the source and callbacks of that render.\<close>

record fetch_task =
  task_source :: image_source
  task_onError :: callbacks

text \<open>
  The state of one instance of the hook. \<open>phase\<close>: not rendered yet, mounted, or torn
  down. \<open>objectURL\<close>: the state of \<open>useState\<close>. \<open>fetch_deps\<close>: the \<open>source\<close> of
  the last commit, the dependency of the first effect. \<open>url_cleanup\<close>: the
  \<open>objectURL\<close> captured by the function that the second effect returned in the last
  commit. \<open>pending\<close>: the asynchronous functions waiting for their fetch.
  \<open>effects\<close>: what has been done outside the component so far. \<open>fresh\<close>: the
  identity of the next object created. \<open>args\<close> and \<open>returned\<close>: the arguments and
  the value of the last render.
\<close>

datatype phase = Fresh | Mounted | Unmounted

record uh_state =
  phase :: phase
  objectURL :: "string option"
  fetch_deps :: "image_source option"
  url_cleanup :: "string option option"
  pending :: "fetch_task list"
  effects :: "effect list"
  fresh :: nat
  args :: "(image_source option \<times> string option \<times> callbacks) option"
  returned :: "image_source option"

definition uh_init :: uh_state where
  "uh_init = \<lparr>phase = Fresh, objectURL = None, fetch_deps = None, url_cleanup = None,
              pending = [], effects = [], fresh = 0, args = None, returned = None\<rparr>"

text \<open>The number in a template literal.\<close>

fun show_nat :: "nat \<Rightarrow> string" where
  "show_nat n =
     (if n < 10 then [char_of (48 + n)]
      else show_nat (n div 10) @ [char_of (48 + n mod 10)])"

declare show_nat.simps [simp del]

text \<open>
  \<open>onError?.forEach((e) => e?.({ source }))\<close>: the calls made, in the order of the
  list, and the error that leaves \<open>forEach\<close> when a callback throws; the entries after
  that callback are not visited.
\<close>

fun forEach_onError :: "callback option list \<Rightarrow> image_source \<Rightarrow> effect list \<times> js_error option" where
  "forEach_onError [] src = ([], None)"
| "forEach_onError (None # cbs) src = forEach_onError cbs src"
| "forEach_onError (Some (Returns n) # cbs) src =
     (OnErrorCall n src # fst (forEach_onError cbs src), snd (forEach_onError cbs src))"
| "forEach_onError (Some (Throws n e) # cbs) src = ([OnErrorCall n src], Some e)"

definition on_error_calls :: "callbacks \<Rightarrow> image_source \<Rightarrow> effect list \<times> js_error option" where
  "on_error_calls onError src =
     (case onError of None \<Rightarrow> ([], None) | Some cbs \<Rightarrow> forEach_onError cbs src)"

text \<open>The \<open>try\<close> block after \<open>fetch\<close> has been called: \<open>Inl\<close> is what it throws, \<open>Inr\<close> the object URL.\<close>

definition try_block :: "fetch_outcome \<Rightarrow> js_error + string" where
  "try_block outcome =
     (case outcome of
        Rejected e \<Rightarrow> Inl e
      | NotOk status statusText \<Rightarrow>
          Inl (JsError (''Failed to fetch image: '' @ show_nat status @ '' '' @ statusText))
      | BlobRejected e \<Rightarrow> Inl e
      | Fulfilled name \<Rightarrow> Inr (''blob:'' @ name))"

text \<open>
  The rest of the asynchronous function: what it does outside, the value it passes to
  \<open>setObjectURL\<close> if it calls it, and the error its promise rejects with if any. The
  \<open>catch\<close> block is not guarded, so what a callback throws there rejects the promise.
\<close>

definition async_body :: "fetch_task \<Rightarrow> fetch_outcome \<Rightarrow> effect list \<times> string option \<times> js_error option" where
  "async_body task outcome =
     (case try_block outcome of
        Inr url \<Rightarrow> ([CreateObjectURL url], Some url, None)
      | Inl error \<Rightarrow>
          (ConsoleError error # fst (on_error_calls (task_onError task) (task_source task)),
           None,
           snd (on_error_calls (task_onError task) (task_source task))))"

text \<open>
  The first effect, up to its first \<open>await\<close>: the call of \<open>fetch\<close> and the
  asynchronous function left waiting for it, or nothing when the guard of line 92 returns.
\<close>

definition started_fetch :: "image_source option \<Rightarrow> string option \<Rightarrow> callbacks \<Rightarrow> (effect \<times> fetch_task) option" where
  "started_fetch src cachePolicy onError =
     (case src of
        None \<Rightarrow> None
      | Some s \<Rightarrow>
          (case headers s of
             None \<Rightarrow> None
           | Some hs \<Rightarrow>
               (case uri s of
                  None \<Rightarrow> None
                | Some u \<Rightarrow>
                    if u = [] then None
                    else Some (Fetch u hs
                                 (if cachePolicy = Some ''none'' then ''no-cache'' else ''default''),
                               \<lparr>task_source = s, task_onError = onError\<rparr>))))"

text \<open>
  The function the second effect returns, for the \<open>objectURL\<close> of the render that
  registered it (\<open>None\<close>: no render has registered one yet).
\<close>

definition revocation :: "string option option \<Rightarrow> effect list" where
  "revocation captured =
     (case captured of
        Some (Some u) \<Rightarrow> if u \<noteq> [] then [RevokeObjectURL u] else []
      | _ \<Rightarrow> [])"

text \<open>Lines 119 to 126: the value of the hook.\<close>

definition useHeaders_result :: "image_source option \<Rightarrow> string option \<Rightarrow> nat \<Rightarrow> image_source option \<times> nat" where
  "useHeaders_result src url n =
     (case src of
        None \<Rightarrow> (src, n)
      | Some s \<Rightarrow>
          if headers s = None then (src, n)
          else if \<not> truthy url then (None, n)
          else (Some (s\<lparr>ident := Made n, uri := url\<rparr>), Suc n))"

text \<open>
  One render of the hook and the commit that follows it. In the commit, the functions
  returned by the effects whose dependencies changed run first (here the revocation,
  when \<open>objectURL\<close> is not the one captured), then those effects run (the first effect
  on the first commit and when \<open>source\<close> is another object; the second effect
  registers the revocation for the current \<open>objectURL\<close>).
\<close>

definition uh_render :: "uh_state \<Rightarrow> image_source option \<Rightarrow> string option \<Rightarrow> callbacks \<Rightarrow> uh_state" where
  "uh_render st src cachePolicy onError =
     (if phase st = Unmounted then st
      else
        let r = useHeaders_result src (objectURL st) (fresh st);
            cleanups = (if url_cleanup st \<noteq> Some (objectURL st)
                        then revocation (url_cleanup st) else []);
            started = (if phase st = Fresh \<or> \<not> same_ref (fetch_deps st) src
                       then started_fetch src cachePolicy onError else None)
        in st\<lparr>phase := Mounted,
               returned := fst r,
               fresh := snd r,
               args := Some (src, cachePolicy, onError),
               fetch_deps := src,
               url_cleanup := Some (objectURL st),
               effects := effects st @ cleanups
                            @ (case started of None \<Rightarrow> [] | Some f \<Rightarrow> [fst f]),
               pending := pending st
                            @ (case started of None \<Rightarrow> [] | Some f \<Rightarrow> [snd f])\<rparr>)"

text \<open>
  A started fetch ends. The effect has dropped the promise of the asynchronous
  function, so a rejection of it is left unhandled. \<open>setObjectURL\<close> on a component
  that is not mounted does nothing; the flag says whether it changed the state, which
  makes the component render again.
\<close>

definition uh_settle :: "uh_state \<Rightarrow> nat \<Rightarrow> fetch_outcome \<Rightarrow> uh_state \<times> bool" where
  "uh_settle st i outcome =
     (if i < length (pending st) then
        let b = async_body (pending st ! i) outcome;
            st1 = st\<lparr>pending := take i (pending st) @ drop (Suc i) (pending st),
                     effects := effects st @ fst b
                       @ (case snd (snd b) of None \<Rightarrow> [] | Some e \<Rightarrow> [UnhandledRejection e])\<rparr>
        in (case fst (snd b) of
              None \<Rightarrow> (st1, False)
            | Some url \<Rightarrow>
                if phase st = Mounted \<and> objectURL st \<noteq> Some url
                then (st1\<lparr>objectURL := Some url\<rparr>, True)
                else (st1, False))
      else (st, False))"

text \<open>Teardown: the registered revocation runs.\<close>

definition uh_unmount :: "uh_state \<Rightarrow> uh_state" where
  "uh_unmount st =
     (if phase st = Mounted
      then st\<lparr>phase := Unmounted, returned := None,
              effects := effects st @ revocation (url_cleanup st)\<rparr>
      else st)"

datatype uh_event =
    Render "image_source option" "string option" callbacks
  | Settle nat fetch_outcome
  | Unmount

text \<open>
  The life of one instance of the hook is a list of events: a render with the arguments
  of that render, the end of the \<open>i\<close>-th waiting fetch, the teardown. When
  \<open>setObjectURL\<close> changes the state, the component renders again with the arguments
  of its last render, and that render and its commit come before the next event.
\<close>

definition uh_step :: "uh_state \<Rightarrow> uh_event \<Rightarrow> uh_state" where
  "uh_step st ev =
     (case ev of
        Render src cachePolicy onError \<Rightarrow> uh_render st src cachePolicy onError
      | Settle i outcome \<Rightarrow>
          (let s = uh_settle st i outcome
           in if snd s
              then (case args (fst s) of
                      Some a \<Rightarrow> uh_render (fst s) (fst a) (fst (snd a)) (snd (snd a))
                    | None \<Rightarrow> fst s)
              else fst s)
      | Unmount \<Rightarrow> uh_unmount st)"

definition uh_run :: "uh_event list \<Rightarrow> uh_state" where
  "uh_run evs = foldl uh_step uh_init evs"

subsection \<open>\<open>ImageWrapper\<close>\<close>

record iw_props =
  p_source :: "image_source option"
  p_onMount :: mount_callbacks
  p_onError :: callbacks
  p_cachePolicy :: "string option"

text \<open>
  What the component returns: nothing, or the \<open>img\<close> element. Of its attributes the
  model keeps \<open>src\<close> (\<open>sourceWithHeaders?.uri || undefined\<close>) and \<open>key\<close>
  (\<open>source?.uri\<close>); the others are passed through from the props.
\<close>

record img_element =
  img_src :: "string option"
  img_key :: "string option"

text \<open>\<open>events?.onMount?.forEach((e) => e?.())\<close>\<close>

definition on_mount_calls :: "mount_callbacks \<Rightarrow> effect list" where
  "on_mount_calls onMount =
     (case onMount of
        None \<Rightarrow> []
      | Some cbs \<Rightarrow> concat (map (\<lambda>e. case e of None \<Rightarrow> [] | Some cb \<Rightarrow> [OnMountCall cb]) cbs))"

text \<open>Lines 158 to 186.\<close>

definition ImageWrapper_view :: "image_source option \<Rightarrow> image_source option \<Rightarrow> img_element option" where
  "ImageWrapper_view src sourceWithHeaders =
     (case sourceWithHeaders of
        None \<Rightarrow> None
      | Some s \<Rightarrow>
          Some \<lparr>img_src = (if truthy (uri s) then uri s else None),
                img_key = (case src of None \<Rightarrow> None | Some p \<Rightarrow> uri p)\<rparr>)"

record iw_state =
  thumb_memo :: thumb_slot
  hashes_memo :: hashes_slot
  headers_hook :: uh_state
  last_render :: "(iw_props \<times> image_source option) option"
  rendered :: "img_element option"

definition iw_init :: iw_state where
  "iw_init = \<lparr>thumb_memo = None, hashes_memo = None, headers_hook = uh_init,
              last_render = None, rendered = None\<rparr>"

text \<open>
  One render of the component with the props \<open>props\<close>, in which \<open>useBlurhash\<close> returns
  \<open>blurhash\<close>, and the commit that follows. The mount effect is declared first, so on
  the first commit it runs before the effects of \<open>useHeaders\<close>.
\<close>

definition iw_render :: "image_utils \<Rightarrow> iw_state \<Rightarrow> iw_props \<Rightarrow> image_source option \<Rightarrow> iw_state" where
  "iw_render x st props blurhash =
     (let u0 = headers_hook st
      in if phase u0 = Unmounted then st
         else
           let h = useImageHashes x (thumb_memo st) (hashes_memo st) (fresh u0)
                     (p_source props) blurhash;
               u1 = u0\<lparr>fresh := fst (snd (snd h)),
                       effects := effects u0 @
                         (if phase u0 = Fresh then on_mount_calls (p_onMount props) else [])\<rparr>;
               u2 = uh_render u1 (resolvedSource (snd (snd (snd h)))) (p_cachePolicy props)
                      (p_onError props)
           in st\<lparr>thumb_memo := fst h, hashes_memo := fst (snd h), headers_hook := u2,
                  last_render := Some (props, blurhash),
                  rendered := ImageWrapper_view (p_source props) (returned u2)\<rparr>)"

datatype iw_event =
    IwRender iw_props "image_source option"
  | IwSettle nat fetch_outcome
  | IwUnmount

definition iw_step :: "image_utils \<Rightarrow> iw_state \<Rightarrow> iw_event \<Rightarrow> iw_state" where
  "iw_step x st ev =
     (case ev of
        IwRender props blurhash \<Rightarrow> iw_render x st props blurhash
      | IwSettle i outcome \<Rightarrow>
          (let s = uh_settle (headers_hook st) i outcome;
               st1 = st\<lparr>headers_hook := fst s\<rparr>
           in if snd s
              then (case last_render st1 of
                      Some r \<Rightarrow> iw_render x st1 (fst r) (snd r)
                    | None \<Rightarrow> st1)
              else st1)
      | IwUnmount \<Rightarrow> st\<lparr>headers_hook := uh_unmount (headers_hook st), rendered := None\<rparr>)"

definition iw_run :: "image_utils \<Rightarrow> iw_event list \<Rightarrow> iw_state" where
  "iw_run x evs = foldl (iw_step x) iw_init evs"

text \<open>The source that \<open>useImageHashes\<close> returned in the last render, which is the argument of \<open>useHeaders\<close>.\<close>

definition iw_resolved :: "iw_state \<Rightarrow> image_source option" where
  "iw_resolved st = (case hashes_memo st of None \<Rightarrow> None | Some m \<Rightarrow> resolvedSource (snd m))"

definition has_headers :: "image_source option \<Rightarrow> bool" where
  "has_headers src = (case src of None \<Rightarrow> False | Some s \<Rightarrow> headers s \<noteq> None)"

subsection \<open>Notions used to state the properties\<close>

definition is_fetch :: "effect \<Rightarrow> bool" where
  "is_fetch e = (case e of Fetch u hs c \<Rightarrow> True | _ \<Rightarrow> False)"

text \<open>The URLs revoked by a list of effects, and the effects a step adds.\<close>

definition revoked :: "effect list \<Rightarrow> string list" where
  "revoked es = concat (map (\<lambda>x. case x of RevokeObjectURL u \<Rightarrow> [u] | _ \<Rightarrow> []) es)"

definition new_effects :: "uh_state \<Rightarrow> uh_state \<Rightarrow> effect list" where
  "new_effects st st' = drop (length (effects st)) (effects st')"

text \<open>A source with headers and an empty or missing URI.\<close>

definition headers_without_uri :: "image_source option \<Rightarrow> bool" where
  "headers_without_uri src =
     (case src of None \<Rightarrow> False | Some s \<Rightarrow> headers s \<noteq> None \<and> \<not> truthy (uri s))"

text \<open>
  A source of the caller that asks for what \<open>s\<close> asks for: the same URI and the same
  headers. \<open>only_source s evs\<close>: in the life \<open>evs\<close> of a component, every render was
  given such a source. \<open>not_hash x s\<close>: the URI of \<open>s\<close> is no placeholder hash.
\<close>

definition same_request :: "image_source \<Rightarrow> image_source option \<Rightarrow> bool" where
  "same_request s src =
     (case src of None \<Rightarrow> False | Some t \<Rightarrow> uri t = uri s \<and> headers t = headers s)"

definition only_source :: "image_source \<Rightarrow> iw_event list \<Rightarrow> bool" where
  "only_source s evs =
     list_all (\<lambda>ev. case ev of IwRender p b \<Rightarrow> same_request s (p_source p) | _ \<Rightarrow> True) evs"

definition not_hash :: "image_utils \<Rightarrow> image_source \<Rightarrow> bool" where
  "not_hash x s \<longleftrightarrow>
     \<not> isBlurhashString x (uri_or_empty (Some s)) \<and> \<not> isThumbhashString x (uri_or_empty (Some s))"

text \<open>
  While every render is given a source with the URI and headers of \<open>s\<close>, which is no
  placeholder hash: the source that \<open>useImageHashes\<close> holds is such a source, and every
  fetch is a fetch of that URI with those headers.
\<close>

definition one_request :: "image_utils \<Rightarrow> image_source \<Rightarrow> iw_state \<Rightarrow> bool" where
  "one_request x s st \<longleftrightarrow>
     (\<forall>m. hashes_memo st = Some m \<longrightarrow> same_request s (resolvedSource (snd m))) \<and>
     (\<forall>U H k. Fetch U H k \<in> set (effects (headers_hook st)) \<longrightarrow>
        uri s = Some U \<and> U \<noteq> [] \<and> headers s = Some H) \<and>
     (\<forall>p b. last_render st = Some (p, b) \<longrightarrow> same_request s (p_source p)) \<and>
     (phase (headers_hook st) = Mounted \<longrightarrow> hashes_memo st \<noteq> None)"

text \<open>What the first effect of \<open>useHeaders\<close> does outside when it runs for a source.\<close>

definition fetch_call :: "image_source option \<Rightarrow> string option \<Rightarrow> callbacks \<Rightarrow> effect list" where
  "fetch_call src cachePolicy onError =
     (case started_fetch src cachePolicy onError of None \<Rightarrow> [] | Some f \<Rightarrow> [fst f])"



text \<open>What the end of a fetch adds to the effects.\<close>

definition settled_effects :: "fetch_task \<Rightarrow> fetch_outcome \<Rightarrow> effect list" where
  "settled_effects t outcome =
     fst (async_body t outcome)
       @ (case snd (snd (async_body t outcome)) of None \<Rightarrow> [] | Some e \<Rightarrow> [UnhandledRejection e])"

text \<open>
  The states of the hook that renders, settled fetches and teardown can reach
  (\<open>reach_mount_calls\<close> is what \<open>ImageWrapper\<close> does to the shared counter and effect
  list before the hook runs), and those in which it rests between two events: a state
  change is followed by a render before the next event.
\<close>

inductive hook_reach :: "uh_state \<Rightarrow> bool" where
  reach_init: "hook_reach uh_init"
| reach_render: "hook_reach st \<Longrightarrow> hook_reach (uh_render st src c e)"
| reach_settle: "hook_reach st \<Longrightarrow> hook_reach (fst (uh_settle st i outcome))"
| reach_unmount: "hook_reach st \<Longrightarrow> hook_reach (uh_unmount st)"
| reach_mount_calls:
    "hook_reach st \<Longrightarrow> hook_reach (st\<lparr>fresh := n, effects := effects st @ on_mount_calls m\<rparr>)"

inductive hook_stable :: "uh_state \<Rightarrow> bool" where
  stable_init: "hook_stable uh_init"
| stable_render: "hook_reach st \<Longrightarrow> hook_stable (uh_render st src c e)"
| stable_settle:
    "hook_stable st \<Longrightarrow> \<not> snd (uh_settle st i outcome) \<Longrightarrow> hook_stable (fst (uh_settle st i outcome))"
| stable_unmount: "hook_stable st \<Longrightarrow> hook_stable (uh_unmount st)"

text \<open>How the state of \<open>ImageWrapper\<close> hangs together between two events.\<close>

definition iw_linked :: "iw_state \<Rightarrow> bool" where
  "iw_linked st \<longleftrightarrow>
     (if phase (headers_hook st) = Mounted
      then \<exists>p b c e. last_render st = Some (p, b) \<and>
             args (headers_hook st) = Some (iw_resolved st, c, e) \<and>
             rendered st = ImageWrapper_view (p_source p) (returned (headers_hook st))
      else rendered st = None)"

subsection \<open>The file names of the server-only document\<close>

text \<open>
  The names \<open>app/+html.<ext>\<close> and \<open>app/+html.<platform>.<ext>\<close> with one of the six
  script extensions, for a platform text \<open>p\<close>.
\<close>

definition server_html_names :: "string \<Rightarrow> string list" where
  "server_html_names p =
     concat (map (\<lambda>m. map (\<lambda>e. ''app/+html'' @ m @ ''.'' @ e)
                         [''tsx'', ''ts'', ''jsx'', ''js'', ''cjs'', ''mjs''])
                [[], ''.'' @ p])"

subsection \<open>A host and inputs to run the worker on\<close>

text \<open>
  A host whose collaborators all succeed: the default transform wraps the text it is
  given into one module, the compilers return their input.
\<close>

definition sample_host :: host where
  "sample_host =
     \<lparr>metro_transform = (\<lambda>config projectRoot filename data options.
          Inr \<lparr>dependencies = [],
               outputs = [\<lparr>out_type = ''js/module'', out_data = [(''code'', JStr data)]\<rparr>]\<rparr>),
      svgr_resolveConfig = (\<lambda>dir. Inr None),
      svgr_transform = (\<lambda>svg cfg. Inr (''export default '' @ svg)),
      path_dirname = (\<lambda>p. ''.''),
      matchCssModule = test_end (Lit ''.module.css''),
      transformPostCssModule = (\<lambda>projectRoot src filename. Inr src),
      matchSass = (\<lambda>filename. None),
      compileSass = (\<lambda>projectRoot filename src syntax. Inr src),
      transformCssModuleWeb = (\<lambda>filename src projectRoot dev minify.
          Inr \<lparr>cm_output = ''module.exports={};'', cm_css = src\<rparr>),
      lightningcss_transform = (\<lambda>filename code projectRoot minify. Inr code),
      wrapDevelopmentCSS = (\<lambda>src filename. src),
      countLines = (\<lambda>s. Suc (length (filter (\<lambda>c. c = CHR 0x0A) s))),
      regexp_test = (\<lambda>pattern s. Inr False)\<rparr>"

text \<open>
  The same host with an engine that rejects the pattern built from the platform text
  \<open>(\<close>, whose group is not closed.
\<close>

definition strict_host :: host where
  "strict_host =
     sample_host\<lparr>regexp_test := (\<lambda>pattern s.
        if pattern = server_html_source ''(''
        then Inl (JsError ''Invalid regular expression: Unterminated group'')
        else Inr False)\<rparr>"

definition no_env :: process_env where
  "no_env = \<lparr>EXPO_METRO_SVG_MODULES = None, EXPO_METRO_CSS_MODULES = None\<rparr>"

definition set_env :: process_env where
  "set_env = \<lparr>EXPO_METRO_SVG_MODULES = Some ''1'', EXPO_METRO_CSS_MODULES = Some ''1''\<rparr>"

definition sample_options :: transform_options where
  "sample_options = \<lparr>opt_type = ''module'', platform = Some ''ios'', dev = True, minify = False,
                      environment = Some ''client''\<rparr>"

definition asset_options :: transform_options where
  "asset_options = sample_options\<lparr>opt_type := ''asset''\<rparr>"

definition web_options :: transform_options where
  "web_options = sample_options\<lparr>platform := Some ''web''\<rparr>"

subsection \<open>Sources and utilities to run the component on\<close>

text \<open>Utilities that recognise the two prefixes; the decoder only tags its input.\<close>

definition sample_utils :: image_utils where
  "sample_utils =
     \<lparr>isBlurhashString = (\<lambda>s. take 10 s = ''blurhash:/''),
      isThumbhashString = (\<lambda>s. take 11 s = ''thumbhash:/''),
      thumbHashStringToDataURL = (\<lambda>s. ''data:image/png;base64,'' @ s)\<rparr>"

definition plain_source :: "nat \<Rightarrow> string \<Rightarrow> image_source" where
  "plain_source n u = \<lparr>ident = Given n, uri = Some u, headers = None, width = None, height = None\<rparr>"

definition auth_source :: "nat \<Rightarrow> string \<Rightarrow> image_source" where
  "auth_source n u = (plain_source n u)\<lparr>headers := Some [(''Authorization'', ''Bearer t'')]\<rparr>"

definition props_of :: "image_source \<Rightarrow> iw_props" where
  "props_of s = \<lparr>p_source = Some s, p_onMount = None,
                 p_onError = Some [Some (Returns 0), None, Some (Returns 1)],
                 p_cachePolicy = None\<rparr>"

text \<open>The same props, with a second callback that throws.\<close>

definition throwing_props :: "image_source \<Rightarrow> iw_props" where
  "throwing_props s =
     (props_of s)\<lparr>p_onError := Some [Some (Returns 0), Some (Throws 1 (JsError ''boom'')),
                                      None, Some (Returns 2)]\<rparr>"

text \<open>Lives of the component and of the hook.\<close>

definition two_renders :: "iw_event list" where
  "two_renders = [IwRender (props_of (plain_source 1 ''a.png'')) None,
                  IwRender (props_of (plain_source 2 ''b.png'')) None]"

definition mount_with_headers :: "iw_event list" where
  "mount_with_headers = [IwRender (props_of (auth_source 1 ''https://e/a.png'')) None]"

definition hook_events :: "uh_event list" where
  "hook_events = [Render (Some (auth_source 1 ''https://e/a.png'')) None None,
                  Settle 0 (Fulfilled ''1'')]"

definition idle_life :: "iw_event list" where
  "idle_life = [IwRender (props_of (auth_source 1 [])) None,
                IwSettle 0 (Fulfilled ''1''),
                IwRender (props_of (auth_source 2 [])) None]"

definition source_change :: "iw_event list" where
  "source_change =
     [IwRender (props_of (auth_source 1 ''https://e/a.png'')) None,
      IwSettle 0 (Fulfilled ''1''),
      IwRender (props_of (plain_source 2 ''thumbhash:/abc'')) None,
      IwRender (props_of (auth_source 3 ''https://e/b.png'')) None]"

definition source_to_empty :: "iw_event list" where
  "source_to_empty =
     [IwRender (props_of (auth_source 1 ''https://e/a.png'')) None,
      IwSettle 0 (Fulfilled ''1''),
      IwRender (props_of (plain_source 2 ''thumbhash:/abc'')) None,
      IwRender (props_of (auth_source 3 [])) None]"


section \<open>Decoding a buffer\<close>

text \<open>A buffer of ASCII bytes is its own text.\<close>

lemma utf8_ascii_run:
  assumes "list_all (\<lambda>c. (of_char c :: nat) \<le> 0x7F) b" and "bytes_needed st = 0"
  shows "foldl utf8_step st b = st\<lparr>decoded := decoded st @ b\<rparr>"
  using assms
proof (induction b arbitrary: st)
  case Nil
  then show ?case by simp
next
  case (Cons c cs)
  then have "utf8_step st c = st\<lparr>decoded := decoded st @ [c]\<rparr>"
    by (simp add: utf8_step_def utf8_lead_def)
  with Cons show ?case by simp
qed

lemma toString_ascii:
  "list_all (\<lambda>c. (of_char c :: nat) \<le> 0x7F) b \<Longrightarrow> toString b = b"
  by (simp add: toString_def utf8_ascii_run utf8_init_def)

text \<open>A byte that cannot start a sequence, and a sequence cut short, are replaced.\<close>

lemma toString_ill_formed:
  "toString [CHR 0xFF, CHR ''a''] = replacement @ ''a''"
  "toString [CHR 0xE2, CHR 0x82] = replacement"
  "toString [CHR 0xE2, CHR 0x82, CHR 0xAC] = [CHR 0xE2, CHR 0x82, CHR 0xAC]"
  by (simp_all add: toString_def utf8_step_def utf8_lead_def utf8_init_def replacement_def)

section \<open>Properties of the regular expressions\<close>

lemma rests_lang: "set (rests r s) = {t. \<exists>u \<in> lang r. s = u @ t}"
proof (induction r arbitrary: s)
  case (Lit l)
  have "take (length l) s = l \<longleftrightarrow> s = l @ drop (length l) s"
    by (metis append_eq_conv_conj append_take_drop_id)
  then show ?case by auto
next
  case (OneOf cs)
  show ?case by (cases s) auto
next
  case (Seq a b)
  have "t \<in> set (rests (Seq a b) s) \<longleftrightarrow> (\<exists>u \<in> lang (Seq a b). s = u @ t)" for t
  proof
    assume "t \<in> set (rests (Seq a b) s)"
    then obtain m where "m \<in> set (rests a s)" "t \<in> set (rests b m)" by auto
    then obtain u v where "u \<in> lang a" "s = u @ m" "v \<in> lang b" "m = v @ t"
      by (auto simp: Seq)
    then show "\<exists>u \<in> lang (Seq a b). s = u @ t" by force
  next
    assume "\<exists>u \<in> lang (Seq a b). s = u @ t"
    then obtain u v where uv: "u \<in> lang a" "v \<in> lang b" "s = (u @ v) @ t" by auto
    then have "v @ t \<in> set (rests a s)" by (auto simp: Seq)
    moreover have "t \<in> set (rests b (v @ t))" using uv by (auto simp: Seq)
    ultimately show "t \<in> set (rests (Seq a b) s)" by auto
  qed
  then show ?case by blast
next
  case (Alt a b)
  show ?case by (auto simp: Alt)
next
  case (Opt a)
  show ?case by (auto simp: Opt)
qed

lemma match_to_end_lang: "match_to_end r s \<longleftrightarrow> s \<in> lang r"
  by (simp add: match_to_end_def rests_lang)

lemma test_end_lang: "test_end r s \<longleftrightarrow> (\<exists>u \<in> lang r. suffix u s)"
proof
  assume "test_end r s"
  then have "\<exists>i. drop i s \<in> lang r"
    unfolding test_end_def list_ex_iff match_to_end_lang by blast
  then obtain i where "drop i s \<in> lang r" ..
  moreover have "suffix (drop i s) s" by (rule suffix_drop)
  ultimately show "\<exists>u \<in> lang r. suffix u s" by blast
next
  assume "\<exists>u \<in> lang r. suffix u s"
  then obtain u pre where u: "u \<in> lang r" and s: "s = pre @ u" by (auto simp: suffix_def)
  have "length pre \<in> set [0..<Suc (length s)]" "drop (length pre) s = u" using s by simp_all
  with u show "test_end r s"
    unfolding test_end_def list_ex_iff match_to_end_lang by blast
qed

lemma lang_svg_module_regex:
  "lang svg_module_regex =
     {''.module.svg'', ''.module.native.svg'', ''.module.ios.svg'',
      ''.module.android.svg'', ''.module.web.svg''}"
  unfolding svg_module_regex_def by (auto simp: Cons_eq_append_conv)

text \<open>\<open>matchSvgModule\<close> holds of the paths that end in one of the five suffixes.\<close>

lemma matchSvgModule_iff:
  "matchSvgModule f \<longleftrightarrow>
     (\<exists>s \<in> set [''.module.svg'', ''.module.native.svg'', ''.module.ios.svg'',
                 ''.module.android.svg'', ''.module.web.svg'']. suffix s f)"
  unfolding matchSvgModule_def test_end_lang lang_svg_module_regex by simp

lemma lang_css_regex: "lang css_regex = {''.css'', ''.scss'', ''.sass''}"
  unfolding css_regex_def by (auto simp: Cons_eq_append_conv)

lemma css_file_iff:
  "css_file f \<longleftrightarrow> (\<exists>s \<in> set [''.css'', ''.scss'', ''.sass'']. suffix s f)"
  unfolding css_file_def test_end_lang lang_css_regex by simp

text \<open>Membership in a sequence, read from the left: enough to run a pattern on a text with unknown parts.\<close>

lemma in_lang_Seq_Lit:
  "w \<in> lang (Seq (Lit l) r) \<longleftrightarrow> take (length l) w = l \<and> drop (length l) w \<in> lang r"
  by (auto simp: append_eq_conv_conj) (metis append_take_drop_id)

lemma in_lang_Seq_OneOf:
  "w \<in> lang (Seq (OneOf cs) r) \<longleftrightarrow>
     (case w of [] \<Rightarrow> False | c # t \<Rightarrow> c \<in> set cs \<and> t \<in> lang r)"
proof (cases w)
  case Nil
  then show ?thesis by auto
next
  case (Cons a t)
  have "a \<in> set cs \<Longrightarrow> t \<in> lang r \<Longrightarrow>
          \<exists>u v. a # t = u @ v \<and> (\<exists>c. u = [c] \<and> c \<in> set cs) \<and> v \<in> lang r"
    by (rule exI[of _ "[a]"], rule exI[of _ t]) simp
  with Cons show ?thesis by auto
qed

lemma in_lang_Seq_Opt:
  "w \<in> lang (Seq (Opt a) r) \<longleftrightarrow> w \<in> lang r \<or> w \<in> lang (Seq a r)"
  by auto

lemma in_lang_Seq_Seq:
  "w \<in> lang (Seq (Seq a b) r) \<longleftrightarrow> w \<in> lang (Seq a (Seq b r))"
proof
  assume "w \<in> lang (Seq (Seq a b) r)"
  then obtain u v t where "w = (u @ v) @ t" "u \<in> lang a" "v \<in> lang b" "t \<in> lang r"
    by auto
  then have "w = u @ (v @ t)" "v @ t \<in> lang (Seq b r)" "u \<in> lang a" by auto
  then show "w \<in> lang (Seq a (Seq b r))" by auto
next
  assume "w \<in> lang (Seq a (Seq b r))"
  then obtain u v t where "w = u @ (v @ t)" "u \<in> lang a" "v \<in> lang b" "t \<in> lang r"
    by auto
  then have "w = (u @ v) @ t" "u @ v \<in> lang (Seq a b)" "t \<in> lang r" by auto
  then show "w \<in> lang (Seq (Seq a b) r)" by (simp del: append_assoc) blast
qed

lemmas in_lang_Seq = in_lang_Seq_Lit in_lang_Seq_OneOf in_lang_Seq_Opt in_lang_Seq_Seq

lemma server_html_names_match:
  assumes "f \<in> set (server_html_names p)"
  shows "test_whole (server_html_regex p) f"
  using assms
  unfolding test_whole_def match_to_end_lang server_html_regex_def server_html_names_def
  by (auto simp add: in_lang_Seq simp del: lang.simps(3))

lemma server_html_names_not_svg:
  assumes "f \<in> set (server_html_names p)"
  shows "\<not> matchSvgModule f"
  using assms unfolding matchSvgModule_iff server_html_names_def
  by (auto simp: suffix_def append_eq_append_conv2 Cons_eq_append_conv append_eq_Cons_conv)

lemma server_html_names_not_css:
  assumes "f \<in> set (server_html_names p)"
  shows "\<not> css_file f"
  using assms unfolding css_file_iff server_html_names_def
  by (auto simp: suffix_def append_eq_append_conv2 Cons_eq_append_conv append_eq_Cons_conv)

lemma matchSvgModule_icon: "matchSvgModule ''icon.module.svg''"
  by (simp add: matchSvgModule_def svg_module_regex_def test_end_def match_to_end_def)

section \<open>Properties of the transform worker\<close>

text \<open>
  C1, as the code has it. When \<open>process.env._EXPO_METRO_SVG_MODULES\<close> is set to a
  non-empty value, a file whose name \<open>matchSvgModule\<close> accepts is handed to
  \<open>transformSvg\<close> with \<open>options.type\<close> set to \<open>module\<close>, whatever \<open>options.type\<close>
  was (also \<open>asset\<close>); the first collaborator called is the SVG compiler's
  configuration lookup, not the default transform.
\<close>

theorem transform_svg_module_routed:
  assumes "truthy (EXPO_METRO_SVG_MODULES env)" and "matchSvgModule filename"
  shows "transform h env config projectRoot filename data options =
           transformSvg h config projectRoot filename data (options\<lparr>opt_type := ''module''\<rparr>)
         \<and> hd (fst (transform h env config projectRoot filename data options)) =
           SvgrResolveConfig (path_dirname h filename)"
  using assms
  by (simp add: transform_def transformSvg_def io_bind_def io_call_def Let_def split: sum.splits)

theorem transform_svg_module_routed_witness:
  "truthy (EXPO_METRO_SVG_MODULES set_env) \<and> matchSvgModule ''icon.module.svg'' \<and>
   fst (transform sample_host set_env [] ''/app'' ''icon.module.svg'' ''<svg/>'' asset_options) =
     [SvgrResolveConfig ''.'',
      SvgrTransform ''<svg/>'' (defaultSVGRConfig False),
      MetroTransform [] ''/app'' ''icon.module.svg'' ''export default <svg/>''
        (asset_options\<lparr>opt_type := ''module''\<rparr>)]"
proof -
  have e: "truthy (EXPO_METRO_SVG_MODULES set_env)" by (simp add: set_env_def truthy_def)
  have m: "matchSvgModule ''icon.module.svg''" by (rule matchSvgModule_icon)
  show ?thesis
    using e m
      transform_svg_module_routed [OF e m, of sample_host "[]" "''/app''" "''<svg/>''" asset_options]
    by (simp add: transformSvg_def metro_def io_call_def io_bind_def sample_host_def Let_def
          asset_options_def sample_options_def truthy_def Buffer_from_def toString_ascii)
qed

text \<open>
  C1 as stated fails: with the environment variable unset, an SVG module file of type
  \<open>asset\<close> takes the asset branch, the default transform on the unchanged arguments,
  and the SVG compiler is not called.
\<close>

theorem transform_svg_module_env_unset:
  "matchSvgModule ''icon.module.svg'' \<and>
   transform sample_host no_env [] ''/app'' ''icon.module.svg'' ''<svg/>'' asset_options =
     metro sample_host [] ''/app'' ''icon.module.svg'' ''<svg/>'' asset_options \<and>
   transform sample_host no_env [] ''/app'' ''icon.module.svg'' ''<svg/>'' asset_options \<noteq>
     transformSvg sample_host [] ''/app'' ''icon.module.svg'' ''<svg/>''
       (asset_options\<lparr>opt_type := ''module''\<rparr>)"
  by (simp add: matchSvgModule_icon transform_def no_env_def truthy_def asset_options_def
        sample_options_def transformSvg_def metro_def io_call_def io_bind_def sample_host_def Let_def)

text \<open>
  C4. On every platform other than web, \<open>transformCss\<close> is the default transform
  applied to a replacement text: the empty style export for a CSS module, the empty
  text otherwise. The only collaborator called is the default transform: no CSS, Sass
  or PostCSS compiler runs.
\<close>

theorem transformCss_not_web:
  assumes "platform options \<noteq> Some ''web''"
  shows "transformCss h config projectRoot filename data options =
           ([MetroTransform config projectRoot filename
               (Buffer_from (if matchCssModule h filename
                             then ''module.exports={ unstable_styles: {} };'' else ''''))
               options],
            metro_transform h config projectRoot filename
               (Buffer_from (if matchCssModule h filename
                             then ''module.exports={ unstable_styles: {} };'' else ''''))
               options)"
  using assms by (simp add: transformCss_def metro_def io_call_def Let_def)

theorem transformCss_not_web_witness:
  "platform sample_options \<noteq> Some ''web'' \<and>
   fst (transformCss sample_host [] ''/app'' ''a.module.css'' ''.a{}'' sample_options) =
     [MetroTransform [] ''/app'' ''a.module.css'' ''module.exports={ unstable_styles: {} };''
        sample_options] \<and>
   fst (transformCss sample_host [] ''/app'' ''a.css'' ''.a{}'' sample_options) =
     [MetroTransform [] ''/app'' ''a.css'' [] sample_options]"
proof -
  have p: "platform sample_options \<noteq> Some ''web''" by (simp add: sample_options_def)
  have m: "matchCssModule sample_host ''a.module.css''" "\<not> matchCssModule sample_host ''a.css''"
    by (simp_all add: sample_host_def test_end_def match_to_end_def)
  show ?thesis
    using p m transformCss_not_web [OF p, of sample_host "[]" "''/app''" "''a.module.css''" "''.a{}''"]
      transformCss_not_web [OF p, of sample_host "[]" "''/app''" "''a.css''" "''.a{}''"]
    by (simp add: Buffer_from_def)
qed

text \<open>
  C6. On the web platform, whenever \<open>transformCss\<close> returns (the CSS-module path and
  the global-CSS path alike), its last call was the default transform on the file,
  which returned some \<open>js\<close>. The result has the dependency list of \<open>js\<close> and exactly
  one output, of type \<open>js/module\<close>. The data of that output are the fields of the data
  of the first output of \<open>js\<close>, in their order (no field if \<open>js\<close> has no output), with
  the field \<open>css\<close> set to a record of \<open>code\<close>, \<open>lineCount\<close> (the lines of that code),
  \<open>map\<close> (empty) and \<open>functionMap\<close> (\<open>null\<close>).
\<close>

theorem transformCss_web_shape:
  assumes "platform options = Some ''web''"
    and "transformCss h config projectRoot filename data options = (calls, Inr r)"
  shows "\<exists>buf js cssCode.
           last calls = MetroTransform config projectRoot filename buf options \<and>
           metro_transform h config projectRoot filename buf options = Inr js \<and>
           r = \<lparr>dependencies = dependencies js,
                outputs =
                  [\<lparr>out_type = ''js/module'',
                    out_data =
                      AList.update ''css''
                        (JObj [(''code'', JStr cssCode),
                               (''lineCount'', JNum (int (countLines h cssCode))),
                               (''map'', JArr []),
                               (''functionMap'', JNull)])
                        (case outputs js of [] \<Rightarrow> [] | item # rest \<Rightarrow> out_data item)\<rparr>]\<rparr>"
  using assms
  by (auto simp add: transformCss_def io_bind_def io_call_def io_return_def metro_def
        css_module_def css_metadata_def first_output_data_def
        split: sum.splits option.splits if_splits)

text \<open>It does return when every collaborator does.\<close>

lemma transformCss_web_returns:
  assumes "platform options = Some ''web''"
    and post: "\<And>src. \<exists>c. transformPostCssModule h projectRoot src filename = Inr c"
    and sass: "\<And>src syn. \<exists>c. compileSass h projectRoot filename src syn = Inr c"
    and cmod: "\<And>src. \<exists>r. transformCssModuleWeb h filename src projectRoot (dev options) (minify options) = Inr r"
    and lcss: "\<And>code. \<exists>r. lightningcss_transform h filename code projectRoot (minify options) = Inr r"
    and dflt: "\<And>buf. \<exists>r. metro_transform h config projectRoot filename buf options = Inr r"
  shows "\<exists>calls r. transformCss h config projectRoot filename data options = (calls, Inr r)"
proof -
  obtain c1 where c1: "transformPostCssModule h projectRoot (toString data) filename = Inr c1"
    using post by blast
  obtain c2 where c2: "snd (case matchSass h filename of
             Some syntax \<Rightarrow>
               io_call (SassCompile projectRoot filename c1 syntax)
                 (compileSass h projectRoot filename c1 syntax)
           | None \<Rightarrow> io_return c1) = Inr c2"
    using sass [of c1] by (cases "matchSass h filename") (auto simp: io_call_def io_return_def)
  obtain r3 where r3: "transformCssModuleWeb h filename c2 projectRoot (dev options) (minify options) = Inr r3"
    using cmod by blast
  obtain r4 where r4: "lightningcss_transform h filename (Buffer_from c2) projectRoot (minify options) = Inr r4"
    using lcss by blast
  obtain j1 where j1: "metro_transform h config projectRoot filename (Buffer_from (cm_output r3)) options = Inr j1"
    using dflt by blast
  obtain j2 where j2: "metro_transform h config projectRoot filename
               (if dev options then Buffer_from (wrapDevelopmentCSS h c2 filename)
                else Buffer_from '''') options = Inr j2"
    using dflt by blast
  show ?thesis
    using assms(1) c1 c2 r3 r4 j1 j2
    by (simp add: transformCss_def io_bind_def io_call_def io_return_def metro_def)
qed

text \<open>The sample host on a CSS module and on a global style sheet.\<close>

lemma transformCss_web_module_run:
  "transformCss sample_host [] ''/app'' ''a.module.css'' ''.a{}'' web_options =
     ([PostCss ''/app'' ''.a{}'' ''a.module.css'',
       CssModuleWeb ''a.module.css'' ''.a{}'' ''/app'' True False,
       MetroTransform [] ''/app'' ''a.module.css'' ''module.exports={};'' web_options],
      Inr \<lparr>dependencies = [],
           outputs = [\<lparr>out_type = ''js/module'',
                       out_data = [(''code'', JStr ''module.exports={};''),
                                   (''css'', JObj [(''code'', JStr ''.a{}''),
                                                   (''lineCount'', JNum 1),
                                                   (''map'', JArr []),
                                                   (''functionMap'', JNull)])]\<rparr>]\<rparr>)"
  by (simp add: transformCss_def io_bind_def io_call_def io_return_def metro_def css_module_def
        css_metadata_def first_output_data_def sample_host_def web_options_def
        sample_options_def test_end_def match_to_end_def Buffer_from_def toString_ascii)

lemma transformCss_web_global_run:
  "transformCss sample_host [] ''/app'' ''a.css'' ''.a{}'' web_options =
     ([PostCss ''/app'' ''.a{}'' ''a.css'',
       LightningCss ''a.css'' ''.a{}'' ''/app'' False,
       MetroTransform [] ''/app'' ''a.css'' ''.a{}'' web_options],
      Inr \<lparr>dependencies = [],
           outputs = [\<lparr>out_type = ''js/module'',
                       out_data = [(''code'', JStr ''.a{}''),
                                   (''css'', JObj [(''code'', JStr ''.a{}''),
                                                   (''lineCount'', JNum 1),
                                                   (''map'', JArr []),
                                                   (''functionMap'', JNull)])]\<rparr>]\<rparr>)"
  by (simp add: transformCss_def io_bind_def io_call_def io_return_def metro_def css_module_def
        css_metadata_def first_output_data_def sample_host_def web_options_def
        sample_options_def test_end_def match_to_end_def Buffer_from_def toString_ascii)


text \<open>
  Both runs have the shape of C6: the field \<open>code\<close> of the module that the default
  transform made is kept, and the field \<open>css\<close> comes after it.
\<close>

theorem transformCss_web_shape_witness:
  "platform web_options = Some ''web'' \<and>
   transformCss sample_host [] ''/app'' ''a.module.css'' ''.a{}'' web_options =
     ([PostCss ''/app'' ''.a{}'' ''a.module.css'',
       CssModuleWeb ''a.module.css'' ''.a{}'' ''/app'' True False,
       MetroTransform [] ''/app'' ''a.module.css'' ''module.exports={};'' web_options],
      Inr \<lparr>dependencies = [],
           outputs = [\<lparr>out_type = ''js/module'',
                       out_data = [(''code'', JStr ''module.exports={};''),
                                   (''css'', JObj [(''code'', JStr ''.a{}''),
                                                   (''lineCount'', JNum 1),
                                                   (''map'', JArr []),
                                                   (''functionMap'', JNull)])]\<rparr>]\<rparr>) \<and>
   metro_transform sample_host [] ''/app'' ''a.module.css'' ''module.exports={};'' web_options =
     Inr \<lparr>dependencies = [],
          outputs = [\<lparr>out_type = ''js/module'',
                      out_data = [(''code'', JStr ''module.exports={};'')]\<rparr>]\<rparr> \<and>
   transformCss sample_host [] ''/app'' ''a.css'' ''.a{}'' web_options =
     ([PostCss ''/app'' ''.a{}'' ''a.css'',
       LightningCss ''a.css'' ''.a{}'' ''/app'' False,
       MetroTransform [] ''/app'' ''a.css'' ''.a{}'' web_options],
      Inr \<lparr>dependencies = [],
           outputs = [\<lparr>out_type = ''js/module'',
                       out_data = [(''code'', JStr ''.a{}''),
                                   (''css'', JObj [(''code'', JStr ''.a{}''),
                                                   (''lineCount'', JNum 1),
                                                   (''map'', JArr []),
                                                   (''functionMap'', JNull)])]\<rparr>]\<rparr>) \<and>
   metro_transform sample_host [] ''/app'' ''a.css'' ''.a{}'' web_options =
     Inr \<lparr>dependencies = [],
          outputs = [\<lparr>out_type = ''js/module'', out_data = [(''code'', JStr ''.a{}'')]\<rparr>]\<rparr>"
proof -
  have w: "platform web_options = Some ''web''"
    by (simp add: web_options_def)
  note m = transformCss_web_module_run and g = transformCss_web_global_run
  from transformCss_web_shape [OF w m] obtain buf1 js1 where
    b1: "buf1 = ''module.exports={};''" and
    j1: "metro_transform sample_host [] ''/app'' ''a.module.css'' buf1 web_options = Inr js1" and
    d1: "dependencies js1 = []" and
    o1: "AList.update ''css''
           (JObj [(''code'', JStr ''.a{}''), (''lineCount'', JNum 1), (''map'', JArr []),
                  (''functionMap'', JNull)])
           (case outputs js1 of [] \<Rightarrow> [] | item # rest \<Rightarrow> out_data item) =
         [(''code'', JStr ''module.exports={};''),
          (''css'', JObj [(''code'', JStr ''.a{}''), (''lineCount'', JNum 1), (''map'', JArr []),
                         (''functionMap'', JNull)])]"
    by (auto simp: sample_host_def)
  from transformCss_web_shape [OF w g] obtain buf2 js2 where
    b2: "buf2 = ''.a{}''" and
    j2: "metro_transform sample_host [] ''/app'' ''a.css'' buf2 web_options = Inr js2" and
    d2: "dependencies js2 = []"
    by (auto simp: sample_host_def)
  have k1: "js1 = \<lparr>dependencies = [],
          outputs = [\<lparr>out_type = ''js/module'',
                      out_data = [(''code'', JStr ''module.exports={};'')]\<rparr>]\<rparr>"
    using j1 b1 by (simp add: sample_host_def)
  have k2: "js2 = \<lparr>dependencies = [],
          outputs = [\<lparr>out_type = ''js/module'', out_data = [(''code'', JStr ''.a{}'')]\<rparr>]\<rparr>"
    using j2 b2 by (simp add: sample_host_def)
  show ?thesis
    using w m g j1 j2 b1 b2 k1 k2 by simp
qed

text \<open>
  C7, as the code has it. An invocation that takes none of the SVG-module, asset and
  CSS branches reaches the test of the server-only document. Outside the \<open>client\<close>
  environment, and in it when the file name does not match the pattern built from
  \<open>options.platform\<close>, the result is the default transform on the unchanged
  arguments. When the name matches, the default transform is given the replacement
  buffer instead of the contents. When the pattern is not a regular expression,
  \<open>new RegExp\<close> throws: the invocation is rejected with that error and no collaborator
  is called.
\<close>

theorem transform_default_passthrough:
  assumes "\<not> (truthy (EXPO_METRO_SVG_MODULES env) \<and> matchSvgModule filename)"
    and "opt_type options \<noteq> ''asset''"
    and "\<not> (truthy (EXPO_METRO_CSS_MODULES env) \<and> css_file filename)"
  shows "transform h env config projectRoot filename data options =
           (if environment options \<noteq> Some ''client''
            then metro h config projectRoot filename data options
            else (case server_html_match h (platform options) filename of
                    Inr False \<Rightarrow> metro h config projectRoot filename data options
                  | Inr True \<Rightarrow>
                      metro h config projectRoot filename
                        (Buffer_from (if minify options then [] else server_html_notice)) options
                  | Inl e \<Rightarrow> ([], Inl e)))"
  using assms by (auto simp add: transform_def split: sum.splits bool.splits)

lemma server_html_match_index:
  "server_html_match h (Some ''ios'') ''src/index.js'' = Inr False"
  by (simp add: server_html_match_def template_text_def plain_text_def
        pattern_chars_def test_whole_def match_to_end_def server_html_regex_def)

lemma server_html_match_unterminated:
  "server_html_match strict_host (Some ''('') ''src/index.js'' =
     Inl (JsError ''Invalid regular expression: Unterminated group'')"
  by (simp add: server_html_match_def template_text_def plain_text_def pattern_chars_def
        strict_host_def)

text \<open>
  A source file in the \<open>client\<close> environment and in the \<open>server\<close> environment: the
  default transform on the unchanged arguments. The same file with the platform text
  \<open>(\<close>: rejected, nothing called.
\<close>

theorem transform_default_passthrough_witness:
  "\<not> (truthy (EXPO_METRO_SVG_MODULES set_env) \<and> matchSvgModule ''src/index.js'') \<and>
   opt_type sample_options \<noteq> ''asset'' \<and>
   \<not> (truthy (EXPO_METRO_CSS_MODULES set_env) \<and> css_file ''src/index.js'') \<and>
   transform sample_host set_env [] ''/app'' ''src/index.js'' ''let a;'' sample_options =
     ([MetroTransform [] ''/app'' ''src/index.js'' ''let a;'' sample_options],
      metro_transform sample_host [] ''/app'' ''src/index.js'' ''let a;'' sample_options) \<and>
   transform sample_host set_env [] ''/app'' ''src/index.js'' ''let a;''
       (sample_options\<lparr>environment := Some ''server''\<rparr>) =
     ([MetroTransform [] ''/app'' ''src/index.js'' ''let a;''
         (sample_options\<lparr>environment := Some ''server''\<rparr>)],
      metro_transform sample_host [] ''/app'' ''src/index.js'' ''let a;''
         (sample_options\<lparr>environment := Some ''server''\<rparr>)) \<and>
   transform strict_host set_env [] ''/app'' ''src/index.js'' ''let a;''
       (sample_options\<lparr>platform := Some ''(''\<rparr>) =
     ([], Inl (JsError ''Invalid regular expression: Unterminated group''))"
proof -
  have a: "\<not> (truthy (EXPO_METRO_SVG_MODULES set_env) \<and> matchSvgModule ''src/index.js'')"
    by (simp add: matchSvgModule_def svg_module_regex_def test_end_def match_to_end_def)
  have b: "opt_type sample_options \<noteq> ''asset''"
    "opt_type (sample_options\<lparr>environment := Some ''server''\<rparr>) \<noteq> ''asset''"
    "opt_type (sample_options\<lparr>platform := Some ''(''\<rparr>) \<noteq> ''asset''"
    by (simp_all add: sample_options_def)
  have c: "\<not> (truthy (EXPO_METRO_CSS_MODULES set_env) \<and> css_file ''src/index.js'')"
    by (simp add: css_file_def css_regex_def test_end_def match_to_end_def)
  have e: "environment sample_options = Some ''client''"
    "platform sample_options = Some ''ios''"
    by (simp_all add: sample_options_def)
  show ?thesis
    using a b(1) c
      transform_default_passthrough [OF a b(1) c, of sample_host "[]" "''/app''" "''let a;''"]
      transform_default_passthrough [OF a b(2) c, of sample_host "[]" "''/app''" "''let a;''"]
      transform_default_passthrough [OF a b(3) c, of strict_host "[]" "''/app''" "''let a;''"]
    by (simp add: e server_html_match_index server_html_match_unterminated metro_def io_call_def)
qed

text \<open>
  C7 as stated fails: a client-environment build of \<open>app/+html.js\<close> takes none of the
  SVG-module, asset and CSS branches, and the default transform receives the notice
  instead of the contents of the file.
\<close>

theorem transform_server_html_not_passthrough:
  "\<not> (truthy (EXPO_METRO_SVG_MODULES set_env) \<and> matchSvgModule ''app/+html.js'') \<and>
   opt_type sample_options \<noteq> ''asset'' \<and>
   \<not> (truthy (EXPO_METRO_CSS_MODULES set_env) \<and> css_file ''app/+html.js'') \<and>
   transform sample_host set_env [] ''/app'' ''app/+html.js'' ''let a;'' sample_options =
     metro sample_host [] ''/app'' ''app/+html.js'' server_html_notice sample_options \<and>
   transform sample_host set_env [] ''/app'' ''app/+html.js'' ''let a;'' sample_options \<noteq>
     metro sample_host [] ''/app'' ''app/+html.js'' ''let a;'' sample_options"
proof -
  have "\<not> matchSvgModule ''app/+html.js''" by (simp add: matchSvgModule_def svg_module_regex_def test_end_def match_to_end_def)
  moreover have "\<not> css_file ''app/+html.js''" by (simp add: css_file_def css_regex_def test_end_def match_to_end_def)
  moreover have "server_html_match sample_host (Some ''ios'') ''app/+html.js'' = Inr True"
    by (simp add: server_html_match_def template_text_def plain_text_def
          pattern_chars_def test_whole_def match_to_end_def server_html_regex_def)
  ultimately show ?thesis
    by (simp add: transform_def sample_options_def metro_def io_call_def Buffer_from_def
          server_html_notice_def)
qed

text \<open>
  The branch of the server-only document in terms of the test the code makes, for any
  platform text: it is reached when none of the three branches before it is taken.
\<close>

lemma transform_server_html_branch:
  assumes "\<not> (truthy (EXPO_METRO_SVG_MODULES env) \<and> matchSvgModule filename)"
    and "opt_type options \<noteq> ''asset''"
    and "\<not> (truthy (EXPO_METRO_CSS_MODULES env) \<and> css_file filename)"
    and "environment options = Some ''client''"
    and "server_html_match h (platform options) filename = Inr True"
  shows "transform h env config projectRoot filename data options =
           metro h config projectRoot filename
             (Buffer_from (if minify options then [] else server_html_notice)) options"
  using assms by (auto simp add: transform_def)

text \<open>
  C9, as the code has it. For an invocation whose \<open>options.type\<close> is not \<open>asset\<close>, in
  the \<open>client\<close> environment, with a platform text free of pattern characters, and a
  file named \<open>app/+html.<ext>\<close> or \<open>app/+html.<platform>.<ext>\<close>: the contents are
  dropped and the default transform receives the notice when \<open>options.minify\<close> is
  false, the empty buffer when it is true.
\<close>

theorem transform_server_html_replaced:
  assumes "opt_type options \<noteq> ''asset''"
    and "environment options = Some ''client''"
    and "plain_text (template_text (platform options))"
    and "filename \<in> set (server_html_names (template_text (platform options)))"
  shows "transform h env config projectRoot filename data options =
           metro h config projectRoot filename
             (Buffer_from (if minify options then [] else server_html_notice)) options"
  using assms server_html_names_match [OF assms(4)] server_html_names_not_css [OF assms(4)]
    server_html_names_not_svg [OF assms(4)]
  by (simp add: transform_def server_html_match_def)

theorem transform_server_html_replaced_witness:
  "opt_type sample_options \<noteq> ''asset'' \<and>
   environment sample_options = Some ''client'' \<and>
   plain_text (template_text (platform sample_options)) \<and>
   ''app/+html.ios.tsx'' \<in> set (server_html_names (template_text (platform sample_options))) \<and>
   \<not> minify sample_options \<and>
   transform sample_host set_env [] ''/app'' ''app/+html.ios.tsx'' ''let a;'' sample_options =
     ([MetroTransform [] ''/app'' ''app/+html.ios.tsx'' server_html_notice sample_options],
      metro_transform sample_host [] ''/app'' ''app/+html.ios.tsx'' server_html_notice
        sample_options)"
proof -
  have a: "opt_type sample_options \<noteq> ''asset''"
    and b: "environment sample_options = Some ''client''"
    and m: "\<not> minify sample_options"
    by (simp_all add: sample_options_def)
  have c: "plain_text (template_text (platform sample_options))"
    by (simp add: sample_options_def template_text_def plain_text_def pattern_chars_def)
  have d: "''app/+html.ios.tsx'' \<in> set (server_html_names (template_text (platform sample_options)))"
    by (simp add: sample_options_def template_text_def server_html_names_def)
  show ?thesis
    using a b c d m
      transform_server_html_replaced [OF a b c d, of sample_host set_env "[]" "''/app''" "''let a;''"]
    by (simp add: metro_def io_call_def Buffer_from_def)
qed

text \<open>
  C9 as stated fails: when \<open>options.type\<close> is \<open>asset\<close> the asset branch comes first,
  and the default transform receives the contents of the file, not the notice.
\<close>

theorem transform_server_html_asset:
  "environment asset_options = Some ''client'' \<and>
   ''app/+html.js'' \<in> set (server_html_names (template_text (platform asset_options))) \<and>
   \<not> minify asset_options \<and>
   transform sample_host set_env [] ''/app'' ''app/+html.js'' ''let a;'' asset_options =
     metro sample_host [] ''/app'' ''app/+html.js'' ''let a;'' asset_options \<and>
   transform sample_host set_env [] ''/app'' ''app/+html.js'' ''let a;'' asset_options \<noteq>
     metro sample_host [] ''/app'' ''app/+html.js'' server_html_notice asset_options"
proof -
  have "\<not> matchSvgModule ''app/+html.js''" by (simp add: matchSvgModule_def svg_module_regex_def test_end_def match_to_end_def)
  then show ?thesis
    by (simp add: transform_def asset_options_def sample_options_def metro_def io_call_def
          server_html_notice_def template_text_def server_html_names_def)
qed

section \<open>Properties of the image component\<close>

subsection \<open>Invariants of the hook and of the component\<close>

lemma try_block_blob: "try_block outcome = Inr url \<Longrightarrow> \<exists>name. url = ''blob:'' @ name"
  by (auto simp: try_block_def split: fetch_outcome.splits)

lemma forEach_onError_set:
  "x \<in> set (fst (forEach_onError cbs s)) \<Longrightarrow> \<exists>cb. x = OnErrorCall cb s"
  by (induction cbs s rule: forEach_onError.induct) auto

lemma on_error_calls_set:
  "x \<in> set (fst (on_error_calls onError s)) \<Longrightarrow> \<exists>cb. x = OnErrorCall cb s"
  by (auto simp: on_error_calls_def split: option.splits dest: forEach_onError_set)

lemma settled_effects_set:
  "x \<in> set (settled_effects t outcome) \<Longrightarrow>
     (\<exists>u. x = CreateObjectURL u) \<or> (\<exists>e. x = ConsoleError e) \<or>
     (\<exists>cb. x = OnErrorCall cb (task_source t)) \<or> (\<exists>e. x = UnhandledRejection e)"
  by (auto simp: settled_effects_def async_body_def split: sum.splits option.splits
           dest: on_error_calls_set)

lemma uh_settle_effects:
  "effects (fst (uh_settle st i outcome)) =
     effects st @ (if i < length (pending st) then settled_effects (pending st ! i) outcome else [])"
  by (simp add: uh_settle_def Let_def settled_effects_def split: option.splits)

lemma on_mount_calls_set:
  "x \<in> set (on_mount_calls m) \<Longrightarrow> \<exists>cb. x = OnMountCall cb"
  by (auto simp: on_mount_calls_def split: option.splits)

lemma started_fetch_Some:
  "started_fetch src c e = Some f \<Longrightarrow>
     is_fetch (fst f) \<and> truthy (uri (task_source (snd f))) \<and> headers (task_source (snd f)) \<noteq> None
       \<and> src = Some (task_source (snd f))"
  by (auto simp: started_fetch_def is_fetch_def truthy_def split: option.splits if_splits)

lemma started_fetch_pair:
  "Some (x, t) = started_fetch src c e \<Longrightarrow>
     is_fetch x \<and> truthy (uri (task_source t)) \<and> headers (task_source t) \<noteq> None
       \<and> src = Some (task_source t)"
  using started_fetch_Some [of src c e "(x, t)"] by simp

lemma started_fetch_pair':
  "started_fetch src c e = Some (x, t) \<Longrightarrow>
     is_fetch x \<and> truthy (uri (task_source t)) \<and> headers (task_source t) \<noteq> None
       \<and> src = Some (task_source t)"
  using started_fetch_Some [of src c e "(x, t)"] by simp

lemmas started_fetchD = started_fetch_pair started_fetch_pair'

lemma revocation_set: "x \<in> set (revocation v) \<Longrightarrow> \<exists>u. x = RevokeObjectURL u"
  by (auto simp: revocation_def split: option.splits if_splits)

text \<open>The effects of a state stay when it moves on.\<close>

lemma uh_render_effects_mono: "set (effects st) \<subseteq> set (effects (uh_render st src c e))"
  by (simp add: uh_render_def Let_def)

lemma uh_settle_effects_mono: "set (effects st) \<subseteq> set (effects (fst (uh_settle st i outcome)))"
  by (simp add: uh_settle_effects)

lemma uh_unmount_effects_mono: "set (effects st) \<subseteq> set (effects (uh_unmount st))"
  by (simp add: uh_unmount_def)

lemma uh_render_objectURL: "objectURL (uh_render st src c e) = objectURL st"
  by (simp add: uh_render_def Let_def)

lemma uh_unmount_objectURL: "objectURL (uh_unmount st) = objectURL st"
  by (simp add: uh_unmount_def)

lemma uh_settle_objectURL:
  "objectURL (fst (uh_settle st i outcome)) = objectURL st \<or>
   (\<exists>name. objectURL (fst (uh_settle st i outcome)) = Some (''blob:'' @ name) \<and>
           CreateObjectURL (''blob:'' @ name) \<in> set (effects (fst (uh_settle st i outcome))))"
  by (auto simp: uh_settle_def Let_def async_body_def split: option.splits sum.splits
           dest: try_block_blob)

text \<open>An object URL in the state is non-empty and was made by \<open>URL.createObjectURL\<close>.\<close>

lemma reach_objectURL:
  assumes "hook_reach st" and "objectURL st = Some u"
  shows "u \<noteq> [] \<and> CreateObjectURL u \<in> set (effects st)"
  using assms
proof (induction arbitrary: u rule: hook_reach.induct)
  case reach_init
  then show ?case by (simp add: uh_init_def)
next
  case (reach_render st src c e)
  then show ?case
    using uh_render_effects_mono [of st src c e] by (auto simp: uh_render_objectURL)
next
  case (reach_settle st i outcome)
  from uh_settle_objectURL [of st i outcome] show ?case
  proof
    assume "objectURL (fst (uh_settle st i outcome)) = objectURL st"
    with reach_settle have "u \<noteq> [] \<and> CreateObjectURL u \<in> set (effects st)" by simp
    with uh_settle_effects_mono [of st i outcome] show ?thesis by blast
  next
    assume "\<exists>name. objectURL (fst (uh_settle st i outcome)) = Some (''blob:'' @ name) \<and>
           CreateObjectURL (''blob:'' @ name) \<in> set (effects (fst (uh_settle st i outcome)))"
    with reach_settle.prems show ?thesis by auto
  qed
next
  case (reach_unmount st)
  then show ?case
    using uh_unmount_effects_mono [of st] by (auto simp: uh_unmount_objectURL)
next
  case (reach_mount_calls st n m)
  then show ?case by auto
qed

text \<open>Every waiting task belongs to a source with headers and a non-empty URI.\<close>

lemma reach_pending:
  assumes "hook_reach st" and "t \<in> set (pending st)"
  shows "truthy (uri (task_source t)) \<and> headers (task_source t) \<noteq> None"
  using assms
proof (induction arbitrary: t rule: hook_reach.induct)
  case reach_init
  then show ?case by (simp add: uh_init_def)
next
  case (reach_render st src c e)
  then show ?case
    by (auto simp: uh_render_def Let_def split: if_splits option.splits dest: started_fetchD)
next
  case (reach_settle st i outcome)
  have "set (pending (fst (uh_settle st i outcome))) \<subseteq> set (pending st)"
    by (auto simp: uh_settle_def Let_def split: option.splits dest: in_set_takeD in_set_dropD)
  with reach_settle show ?case by blast
next
  case (reach_unmount st)
  then show ?case by (auto simp: uh_unmount_def split: if_splits)
next
  case (reach_mount_calls st n m)
  then show ?case by auto
qed

text \<open>The error callbacks are only ever called with such a source.\<close>

lemma reach_on_error:
  assumes "hook_reach st" and "OnErrorCall cb s \<in> set (effects st)"
  shows "truthy (uri s) \<and> headers s \<noteq> None"
  using assms
proof (induction arbitrary: cb s rule: hook_reach.induct)
  case reach_init
  then show ?case by (simp add: uh_init_def)
next
  case (reach_render st src c e)
  then show ?case
    by (auto simp: uh_render_def Let_def is_fetch_def
             split: if_splits option.splits dest: started_fetchD revocation_set)
next
  case (reach_settle st i outcome)
  show ?case
  proof (cases "OnErrorCall cb s \<in> set (effects st)")
    case True
    with reach_settle show ?thesis by blast
  next
    case False
    with reach_settle.prems have i: "i < length (pending st)"
      and "OnErrorCall cb s \<in> set (settled_effects (pending st ! i) outcome)"
      by (auto simp: uh_settle_effects split: if_splits)
    then have "s = task_source (pending st ! i)"
      by (auto dest: settled_effects_set)
    with i reach_pending [OF reach_settle.hyps, of "pending st ! i"] show ?thesis by simp
  qed
next
  case (reach_unmount st)
  then show ?case by (auto simp: uh_unmount_def split: if_splits dest: revocation_set)
next
  case (reach_mount_calls st n m)
  then show ?case by (auto dest: on_mount_calls_set)
qed

text \<open>An object URL is made only after a fetch was started.\<close>

lemma reach_fetch_first:
  assumes "hook_reach st"
    and "pending st \<noteq> [] \<or> (\<exists>u. CreateObjectURL u \<in> set (effects st))"
  shows "\<exists>x \<in> set (effects st). is_fetch x"
  using assms
proof (induction rule: hook_reach.induct)
  case reach_init
  then show ?case by (simp add: uh_init_def)
next
  case (reach_render st src c e)
  then show ?case
    by (auto simp: uh_render_def Let_def
             split: if_splits option.splits dest: started_fetchD revocation_set)
next
  case (reach_settle st i outcome)
  show ?case
  proof (cases "i < length (pending st)")
    case True
    then have "pending st \<noteq> []" by auto
    with reach_settle.IH uh_settle_effects_mono [of st i outcome] show ?thesis by blast
  next
    case False
    with reach_settle show ?thesis by (simp add: uh_settle_def)
  qed
next
  case (reach_unmount st)
  then show ?case by (auto simp: uh_unmount_def split: if_splits dest: revocation_set)
next
  case (reach_mount_calls st n m)
  then show ?case by (auto dest: on_mount_calls_set)
qed

text \<open>Before the first render nothing has happened; after teardown the hook returns nothing.\<close>

lemma reach_phase:
  assumes "hook_reach st"
  shows "(phase st = Fresh \<longrightarrow> objectURL st = None \<and> pending st = [] \<and> url_cleanup st = None
            \<and> returned st = None \<and> args st = None)
         \<and> (phase st = Unmounted \<longrightarrow> returned st = None)"
  using assms
proof (induction rule: hook_reach.induct)
  case reach_init
  then show ?case by (simp add: uh_init_def)
next
  case (reach_render st src c e)
  then show ?case by (simp add: uh_render_def Let_def)
next
  case (reach_settle st i outcome)
  then show ?case by (auto simp: uh_settle_def Let_def split: option.splits)
next
  case (reach_unmount st)
  then show ?case by (simp add: uh_unmount_def)
next
  case (reach_mount_calls st n m)
  then show ?case by simp
qed

lemma stable_reach: "hook_stable st \<Longrightarrow> hook_reach st"
  by (induction rule: hook_stable.induct) (auto intro: hook_reach.intros)

lemma uh_settle_unchanged:
  assumes "\<not> snd (uh_settle st i outcome)"
  shows "phase (fst (uh_settle st i outcome)) = phase st"
    and "objectURL (fst (uh_settle st i outcome)) = objectURL st"
    and "url_cleanup (fst (uh_settle st i outcome)) = url_cleanup st"
    and "args (fst (uh_settle st i outcome)) = args st"
    and "returned (fst (uh_settle st i outcome)) = returned st"
  using assms by (auto simp: uh_settle_def Let_def split: option.splits if_splits)

text \<open>
  Between two events a mounted hook is in step with its state: the registered
  revocation captured the current \<open>objectURL\<close>, and the value returned is the one
  lines 119 to 126 give for the last source and the current \<open>objectURL\<close>.
\<close>

lemma stable_synced:
  assumes "hook_stable st" and "phase st = Mounted"
  shows "url_cleanup st = Some (objectURL st) \<and>
         (\<exists>src c e n. args st = Some (src, c, e) \<and>
                      returned st = fst (useHeaders_result src (objectURL st) n))"
  using assms
proof (induction rule: hook_stable.induct)
  case stable_init
  then show ?case by (simp add: uh_init_def)
next
  case (stable_render st src c e)
  then have "phase st \<noteq> Unmounted"
    by (auto simp: uh_render_def)
  then show ?case
    by (auto simp: uh_render_def Let_def)
next
  case (stable_settle st i outcome)
  then show ?case by (simp add: uh_settle_unchanged)
next
  case (stable_unmount st)
  then show ?case by (auto simp: uh_unmount_def split: if_splits)
qed

lemma uh_settle_changed:
  assumes "snd (uh_settle st i outcome)"
  shows "phase st = Mounted" and "phase (fst (uh_settle st i outcome)) = Mounted"
    and "args (fst (uh_settle st i outcome)) = args st"
    and "url_cleanup (fst (uh_settle st i outcome)) = url_cleanup st"
    and "objectURL (fst (uh_settle st i outcome)) \<noteq> objectURL st"
    and "i < length (pending st)"
    and "\<exists>u. effects (fst (uh_settle st i outcome)) = effects st @ [CreateObjectURL u]"
  using assms by (auto simp: uh_settle_def Let_def async_body_def split: option.splits if_splits sum.splits)

lemma settled_effects_fails:
  "try_block outcome = Inl error \<Longrightarrow>
     settled_effects t outcome =
       ConsoleError error # fst (on_error_calls (task_onError t) (task_source t))
         @ (case snd (on_error_calls (task_onError t) (task_source t)) of
              None \<Rightarrow> [] | Some e \<Rightarrow> [UnhandledRejection e])"
  by (simp add: settled_effects_def async_body_def)

lemma uh_settle_fails:
  assumes "try_block outcome = Inl error"
  shows "\<not> snd (uh_settle st i outcome)"
    and "objectURL (fst (uh_settle st i outcome)) = objectURL st"
  using assms by (simp_all add: uh_settle_def Let_def async_body_def)

lemma uh_step_stable:
  assumes "hook_stable st"
  shows "hook_stable (uh_step st ev)"
proof (cases ev)
  case (Render src c e)
  then show ?thesis
    using assms by (simp add: uh_step_def stable_render stable_reach)
next
  case (Settle i outcome)
  show ?thesis
  proof (cases "snd (uh_settle st i outcome)")
    case True
    then obtain a where a: "args (fst (uh_settle st i outcome)) = Some a"
      using stable_synced [OF assms] uh_settle_changed(1,3) [OF True] by auto
    have "hook_reach (fst (uh_settle st i outcome))"
      using assms by (simp add: reach_settle stable_reach)
    then show ?thesis
      using True a Settle by (simp add: uh_step_def Let_def stable_render)
  next
    case False
    then show ?thesis
      using assms Settle by (simp add: uh_step_def Let_def stable_settle)
  qed
next
  case Unmount
  then show ?thesis
    using assms by (simp add: uh_step_def stable_unmount)
qed

lemma uh_run_snoc: "uh_run (evs @ [ev]) = uh_step (uh_run evs) ev"
  by (simp add: uh_run_def)

lemma uh_run_stable: "hook_stable (uh_run evs)"
proof (induction evs rule: rev_induct)
  case Nil
  show ?case by (simp add: uh_run_def stable_init)
next
  case (snoc ev evs)
  then show ?case by (simp add: uh_run_snoc uh_step_stable)
qed

lemma revoked_Nil: "revoked [] = []"
  by (simp add: revoked_def)

lemma revoked_append: "revoked (xs @ ys) = revoked xs @ revoked ys"
  by (simp add: revoked_def)

lemma revoked_revocation:
  "revoked (revocation v) = (case v of Some (Some u) \<Rightarrow> if u \<noteq> [] then [u] else [] | _ \<Rightarrow> [])"
  by (simp add: revoked_def revocation_def split: option.splits)

lemma revoked_started:
  "revoked (case started_fetch src c e of None \<Rightarrow> [] | Some f \<Rightarrow> [fst f]) = []"
  by (auto simp: revoked_def is_fetch_def split: option.splits effect.splits dest: started_fetchD)

lemma revoked_settled_effects: "revoked (settled_effects t outcome) = []"
proof -
  have "\<forall>x \<in> set (settled_effects t outcome). (case x of RevokeObjectURL u \<Rightarrow> [u] | _ \<Rightarrow> []) = []"
    by (auto dest: settled_effects_set)
  then show ?thesis by (simp add: revoked_def)
qed

text \<open>What a render, a settled fetch and a teardown add to the effects.\<close>

lemma uh_render_new_effects:
  assumes "hook_stable st"
  shows "\<exists>es. effects (uh_render st src c e) = effects st @ es \<and> revoked es = []"
proof (cases "phase st")
  case Fresh
  then have "url_cleanup st = None"
    using reach_phase [OF stable_reach [OF assms]] by simp
  with Fresh show ?thesis
    by (simp add: uh_render_def Let_def revoked_append revoked_revocation revoked_started)
next
  case Mounted
  then have "url_cleanup st = Some (objectURL st)"
    using stable_synced [OF assms] by simp
  with Mounted show ?thesis
    by (simp add: uh_render_def Let_def revoked_started revoked_Nil)
next
  case Unmounted
  then show ?thesis by (simp add: uh_render_def revoked_def)
qed

lemma uh_settle_new_effects:
  "\<exists>es. effects (fst (uh_settle st i outcome)) = effects st @ es \<and> revoked es = []"
  by (simp add: uh_settle_effects revoked_settled_effects revoked_Nil)

lemma uh_rerender_new_effects:
  assumes "hook_stable st" and "snd (uh_settle st i outcome)"
  shows "\<exists>es. effects (uh_render (fst (uh_settle st i outcome)) src c e)
               = effects (fst (uh_settle st i outcome)) @ es \<and>
              revoked es = (case objectURL st of Some u \<Rightarrow> [u] | None \<Rightarrow> [])"
proof -
  let ?s = "fst (uh_settle st i outcome)"
  have m: "phase st = Mounted" "phase ?s = Mounted"
    and u: "url_cleanup ?s = url_cleanup st" "objectURL ?s \<noteq> objectURL st"
    using uh_settle_changed [OF assms(2)] by simp_all
  have c: "url_cleanup st = Some (objectURL st)"
    using stable_synced [OF assms(1) m(1)] by simp
  have t: "objectURL st = Some v \<Longrightarrow> v \<noteq> []" for v
    using reach_objectURL [OF stable_reach [OF assms(1)]] by simp
  show ?thesis
    using m u c t
    by (auto simp: uh_render_def Let_def revoked_append revoked_revocation revoked_started
             revoked_Nil split: option.splits)
qed

lemma uh_unmount_new_effects:
  assumes "hook_stable st"
  shows "\<exists>es. effects (uh_unmount st) = effects st @ es \<and>
              revoked es = (if phase st = Mounted
                            then (case objectURL st of Some u \<Rightarrow> [u] | None \<Rightarrow> []) else [])"
proof (cases "phase st = Mounted")
  case True
  have c: "url_cleanup st = Some (objectURL st)"
    using stable_synced [OF assms True] by simp
  have t: "objectURL st = Some v \<Longrightarrow> v \<noteq> []" for v
    using reach_objectURL [OF stable_reach [OF assms]] by simp
  show ?thesis using True c t
    by (auto simp: uh_unmount_def revoked_revocation split: option.splits)
next
  case False
  then show ?thesis by (simp add: uh_unmount_def revoked_def)
qed

lemma started_fetch_without_uri: "headers_without_uri src \<Longrightarrow> started_fetch src c e = None"
  by (auto simp: headers_without_uri_def started_fetch_def truthy_def split: option.splits)

lemma useHeaders_result_no_url:
  "headers_without_uri src \<Longrightarrow> useHeaders_result src None n = (None, n)"
  by (auto simp: headers_without_uri_def useHeaders_result_def truthy_def split: option.splits)

lemma on_error_never_without_uri:
  assumes "hook_reach st" and "OnErrorCall cb s \<in> set (effects st)"
  shows "\<not> headers_without_uri (Some s)"
  using reach_on_error [OF assms] by (simp add: headers_without_uri_def)

subsection \<open>\<open>ImageWrapper\<close> between two events\<close>

lemma useImageHashes_slot:
  "(case fst (snd (useImageHashes x tslot hslot n src blurhash)) of
      None \<Rightarrow> None | Some m \<Rightarrow> resolvedSource (snd m))
   = resolvedSource (snd (snd (snd (useImageHashes x tslot hslot n src blurhash))))"
  by (simp add: useImageHashes_def Let_def split: option.splits)

lemma iw_render_unmounted:
  "phase (headers_hook st) = Unmounted \<Longrightarrow> iw_render x st p b = st"
  by (simp add: iw_render_def)

lemma iw_render_hook:
  assumes "phase (headers_hook st) \<noteq> Unmounted"
  shows "headers_hook (iw_render x st p b) =
           uh_render ((headers_hook st)
                \<lparr>fresh := fst (snd (snd (useImageHashes x (thumb_memo st) (hashes_memo st)
                                     (fresh (headers_hook st)) (p_source p) b))),
                  effects := effects (headers_hook st) @
                    on_mount_calls (if phase (headers_hook st) = Fresh then p_onMount p else None)\<rparr>)
             (iw_resolved (iw_render x st p b)) (p_cachePolicy p) (p_onError p)"
  using assms
  by (simp add: iw_render_def Let_def iw_resolved_def useImageHashes_slot on_mount_calls_def)

lemma iw_render_stable:
  assumes "hook_reach (headers_hook st)" and "phase (headers_hook st) \<noteq> Unmounted"
  shows "hook_stable (headers_hook (iw_render x st p b))"
  by (subst iw_render_hook [OF assms(2)]) (intro stable_render reach_mount_calls assms(1))

lemma iw_render_linked:
  assumes "phase (headers_hook st) \<noteq> Unmounted"
  shows "iw_linked (iw_render x st p b)"
proof -
  have m: "phase (headers_hook (iw_render x st p b)) = Mounted"
    using assms by (subst iw_render_hook [OF assms]) (simp add: uh_render_def Let_def)
  have a: "\<exists>c e. args (headers_hook (iw_render x st p b))
                   = Some (iw_resolved (iw_render x st p b), c, e)"
    using assms by (subst iw_render_hook [OF assms]) (simp add: uh_render_def Let_def)
  have "last_render (iw_render x st p b) = Some (p, b)"
    and "rendered (iw_render x st p b)
          = ImageWrapper_view (p_source p) (returned (headers_hook (iw_render x st p b)))"
    using assms by (simp_all add: iw_render_def Let_def)
  with m a show ?thesis by (auto simp: iw_linked_def)
qed

lemma iw_run_snoc: "iw_run x (evs @ [ev]) = iw_step x (iw_run x evs) ev"
  by (simp add: iw_run_def)

lemma iw_step_invariant:
  assumes "hook_stable (headers_hook st)" and "iw_linked st"
  shows "hook_stable (headers_hook (iw_step x st ev)) \<and> iw_linked (iw_step x st ev)"
proof (cases ev)
  case (IwRender p b)
  show ?thesis
  proof (cases "phase (headers_hook st) = Unmounted")
    case True
    then show ?thesis using assms IwRender by (simp add: iw_step_def iw_render_unmounted)
  next
    case False
    then show ?thesis
      using IwRender iw_render_stable [OF stable_reach [OF assms(1)] False] iw_render_linked [OF False]
      by (simp add: iw_step_def)
  qed
next
  case (IwSettle i outcome)
  let ?s = "uh_settle (headers_hook st) i outcome"
  let ?st1 = "st\<lparr>headers_hook := fst ?s\<rparr>"
  show ?thesis
  proof (cases "snd ?s")
    case True
    have m: "phase (headers_hook st) = Mounted" "phase (headers_hook ?st1) \<noteq> Unmounted"
      using uh_settle_changed(1,2) [OF True] by simp_all
    then obtain r where r: "last_render ?st1 = Some r"
      using assms(2) by (auto simp: iw_linked_def)
    have step: "iw_step x st ev = iw_render x ?st1 (fst r) (snd r)"
      using IwSettle True r by (simp add: iw_step_def Let_def)
    have "hook_reach (headers_hook ?st1)"
      using assms(1) by (simp add: reach_settle stable_reach)
    then show ?thesis
      unfolding step using iw_render_stable [OF _ m(2)] iw_render_linked [OF m(2)] by blast
  next
    case False
    have step: "iw_step x st ev = ?st1"
      using IwSettle False by (simp add: iw_step_def Let_def)
    have "iw_resolved ?st1 = iw_resolved st"
      by (simp add: iw_resolved_def)
    then have "iw_linked ?st1"
      using assms(2) uh_settle_unchanged [OF False]
      by (auto simp: iw_linked_def split: if_splits)
    then show ?thesis
      unfolding step using stable_settle [OF assms(1) False] by simp
  qed
next
  case IwUnmount
  have "phase (uh_unmount (headers_hook st)) \<noteq> Mounted"
    by (simp add: uh_unmount_def)
  then show ?thesis
    using IwUnmount stable_unmount [OF assms(1)] by (simp add: iw_step_def iw_linked_def)
qed

lemma iw_run_invariant:
  "hook_stable (headers_hook (iw_run x evs)) \<and> iw_linked (iw_run x evs)"
proof (induction evs rule: rev_induct)
  case Nil
  have "hook_stable (headers_hook iw_init)"
    by (simp add: iw_init_def stable_init)
  moreover have "iw_linked iw_init"
    by (simp add: iw_linked_def iw_init_def uh_init_def)
  ultimately show ?case by (simp add: iw_run_def)
next
  case (snoc ev evs)
  then show ?case by (simp add: iw_run_snoc iw_step_invariant)
qed

lemma view_with_headers:
  assumes "has_headers src"
  shows "ImageWrapper_view p (fst (useHeaders_result src url n)) =
           (if truthy url then Some \<lparr>img_src = url, img_key = (case p of None \<Rightarrow> None | Some q \<Rightarrow> uri q)\<rparr>
            else None)"
  using assms
  by (auto simp: has_headers_def useHeaders_result_def ImageWrapper_view_def split: option.splits)

text \<open>What is on the screen while the source given to \<open>useHeaders\<close> has headers.\<close>

lemma rendered_with_headers:
  assumes "has_headers (iw_resolved (iw_run x evs))"
  shows "rendered (iw_run x evs) =
           (if phase (headers_hook (iw_run x evs)) = Mounted
               \<and> objectURL (headers_hook (iw_run x evs)) \<noteq> None
            then Some \<lparr>img_src = objectURL (headers_hook (iw_run x evs)),
                       img_key = (case last_render (iw_run x evs) of
                                    None \<Rightarrow> None
                                  | Some r \<Rightarrow> (case p_source (fst r) of None \<Rightarrow> None | Some q \<Rightarrow> uri q))\<rparr>
            else None)"
proof (cases "phase (headers_hook (iw_run x evs)) = Mounted")
  case True
  let ?st = "iw_run x evs"
  from iw_run_invariant [of x evs] True
  obtain p b c e where l: "last_render ?st = Some (p, b)"
    "args (headers_hook ?st) = Some (iw_resolved ?st, c, e)"
    "rendered ?st = ImageWrapper_view (p_source p) (returned (headers_hook ?st))"
    by (auto simp: iw_linked_def)
  from iw_run_invariant [of x evs] stable_synced [OF _ True] l(2)
  obtain n where "returned (headers_hook ?st)
      = fst (useHeaders_result (iw_resolved ?st) (objectURL (headers_hook ?st)) n)" by auto
  moreover have "objectURL (headers_hook ?st) = Some u \<Longrightarrow> u \<noteq> []" for u
    using reach_objectURL [OF stable_reach] iw_run_invariant [of x evs] by blast
  ultimately show ?thesis
    using True l(1,3) view_with_headers [OF assms]
    by (auto simp: truthy_def split: option.splits)
next
  case False
  then show ?thesis using iw_run_invariant [of x evs] by (simp add: iw_linked_def)
qed

subsection \<open>Runs on the sample sources\<close>

lemmas image_defs =
  iw_run_def iw_step_def iw_render_def iw_init_def uh_init_def uh_run_def uh_step_def
  useImageHashes_def useThumbhash_def thumbhash_factory_def first_defined_def
  strippedThumbhashString_def uri_or_empty_def same_ref_def
  uh_render_def uh_settle_def uh_unmount_def useHeaders_result_def started_fetch_def
  revocation_def async_body_def try_block_def on_error_calls_def
  on_mount_calls_def ImageWrapper_view_def iw_resolved_def has_headers_def truthy_def
  sample_utils_def props_of_def plain_source_def auth_source_def Let_def

lemma show_nat_404: "show_nat 404 = ''404''"
  by code_simp

lemma mount_with_headers_hook:
  "headers_hook (iw_run sample_utils mount_with_headers) =
     \<lparr>phase = Mounted, objectURL = None,
      fetch_deps = Some (auth_source 1 ''https://e/a.png''),
      url_cleanup = Some None,
      pending = [\<lparr>task_source = auth_source 1 ''https://e/a.png'',
                  task_onError = Some [Some (Returns 0), None, Some (Returns 1)]\<rparr>],
      effects = [Fetch ''https://e/a.png'' [(''Authorization'', ''Bearer t'')] ''default''],
      fresh = 0,
      args = Some (Some (auth_source 1 ''https://e/a.png''), None,
                   Some [Some (Returns 0), None, Some (Returns 1)]),
      returned = None\<rparr>"
  by (simp add: mount_with_headers_def image_defs)

lemma mount_with_headers_resolved:
  "iw_resolved (iw_run sample_utils mount_with_headers) = Some (auth_source 1 ''https://e/a.png'')"
  by (simp add: mount_with_headers_def image_defs)

lemma hook_events_run:
  "objectURL (uh_run hook_events) = Some ''blob:1''"
  "phase (uh_run hook_events) = Mounted"
  "phase (uh_step (uh_run hook_events) Unmount) = Unmounted"
  "objectURL (uh_step (uh_run hook_events) Unmount) = Some ''blob:1''"
  by (simp_all add: hook_events_def image_defs)

subsection \<open>The first fetch comes before the first object URL\<close>





lemma is_fetch_Fetch: "is_fetch f \<Longrightarrow> \<exists>u hs k. f = Fetch u hs k"
  by (cases f) (simp_all add: is_fetch_def)



lemma uh_render_effects:
  "effects (uh_render st src c e) =
     effects st @
       (if phase st = Unmounted then []
        else (if url_cleanup st \<noteq> Some (objectURL st) then revocation (url_cleanup st) else [])
             @ (if phase st = Fresh \<or> \<not> same_ref (fetch_deps st) src
                then fetch_call src c e else []))"
  by (simp add: uh_render_def Let_def fetch_call_def)

lemma fetch_call_set:
  "x \<in> set (fetch_call src c e) \<Longrightarrow>
     \<exists>t u hs k. src = Some t \<and> uri t = Some u \<and> u \<noteq> [] \<and> headers t = Some hs \<and> x = Fetch u hs k"
  by (auto simp: fetch_call_def started_fetch_def split: option.splits if_splits)




text \<open>The fetch a render starts is the one its source asks for.\<close>

lemma uh_render_fetch:
  assumes "Fetch U H k \<in> set (effects (uh_render st src c e))"
  shows "Fetch U H k \<in> set (effects st) \<or>
         (\<exists>t. src = Some t \<and> uri t = Some U \<and> U \<noteq> [] \<and> headers t = Some H)"
  using assms
  by (auto simp: uh_render_effects split: if_splits dest: revocation_set fetch_call_set)

lemma uh_settle_fetch:
  "Fetch U H k \<in> set (effects (fst (uh_settle st i outcome))) \<Longrightarrow> Fetch U H k \<in> set (effects st)"
  by (auto simp: uh_settle_effects split: if_splits dest: settled_effects_set)

lemma uh_unmount_fetch:
  "Fetch U H k \<in> set (effects (uh_unmount st)) \<Longrightarrow> Fetch U H k \<in> set (effects st)"
  by (auto simp: uh_unmount_def split: if_splits dest: revocation_set)

lemma uh_settle_phase: "phase (fst (uh_settle st i outcome)) = phase st"
  by (simp add: uh_settle_def Let_def split: option.splits)

subsection \<open>A component that is given one request only\<close>

lemma one_request_fetch:
  assumes "one_request x s st" and "Fetch U H k \<in> set (effects (headers_hook st))"
  shows "uri s = Some U" and "U \<noteq> []" and "headers s = Some H"
  using assms unfolding one_request_def by blast+

lemma same_request_hash:
  "same_request s src \<Longrightarrow> uri_or_empty src = uri_or_empty (Some s)"
  by (auto simp: same_request_def uri_or_empty_def split: option.splits)

lemma useImageHashes_same_request:
  assumes "not_hash x s" and "same_request s src"
    and "\<forall>m. hslot = Some m \<longrightarrow> same_request s (resolvedSource (snd m))"
  shows "\<exists>m. fst (snd (useImageHashes x tslot hslot n src b)) = Some m \<and>
             same_request s (resolvedSource (snd m))"
  using assms same_request_hash [OF assms(2)]
  by (auto simp: useImageHashes_def Let_def not_hash_def split: option.splits)

lemma iw_render_one_request:
  assumes nh: "not_hash x s" and p: "same_request s (p_source p)"
    and inv: "one_request x s st" and ph: "phase (headers_hook st) \<noteq> Unmounted"
  shows "one_request x s (iw_render x st p b)"
proof -
  let ?st' = "iw_render x st p b"
  from inv have memo: "\<forall>m. hashes_memo st = Some m \<longrightarrow> same_request s (resolvedSource (snd m))"
    and fx: "\<forall>U H k. Fetch U H k \<in> set (effects (headers_hook st)) \<longrightarrow>
               uri s = Some U \<and> U \<noteq> [] \<and> headers s = Some H"
    by (simp_all add: one_request_def)
  have hm: "hashes_memo ?st' =
      fst (snd (useImageHashes x (thumb_memo st) (hashes_memo st) (fresh (headers_hook st))
                  (p_source p) b))"
    using ph by (simp add: iw_render_def Let_def)
  from useImageHashes_same_request [OF nh p memo] obtain m where
    m: "hashes_memo ?st' = Some m" "same_request s (resolvedSource (snd m))"
    unfolding hm by blast
  then have res: "same_request s (iw_resolved ?st')"
    by (simp add: iw_resolved_def)
  have lr: "last_render ?st' = Some (p, b)"
    using ph by (simp add: iw_render_def Let_def)
  have "uri s = Some U \<and> U \<noteq> [] \<and> headers s = Some H"
    if f: "Fetch U H k \<in> set (effects (headers_hook ?st'))" for U H k
  proof -
    from f have "Fetch U H k \<in> set (effects (uh_render ((headers_hook st)
                \<lparr>fresh := fst (snd (snd (useImageHashes x (thumb_memo st) (hashes_memo st)
                                     (fresh (headers_hook st)) (p_source p) b))),
                  effects := effects (headers_hook st) @
                    on_mount_calls (if phase (headers_hook st) = Fresh then p_onMount p else None)\<rparr>)
             (iw_resolved ?st') (p_cachePolicy p) (p_onError p)))"
      by (subst (asm) iw_render_hook [OF ph])
    from uh_render_fetch [OF this]
    have "Fetch U H k \<in> set (effects (headers_hook st) @
              on_mount_calls (if phase (headers_hook st) = Fresh then p_onMount p else None))
          \<or> (\<exists>t. iw_resolved ?st' = Some t \<and> uri t = Some U \<and> U \<noteq> [] \<and> headers t = Some H)"
      by simp
    then show ?thesis
    proof
      assume "Fetch U H k \<in> set (effects (headers_hook st) @
              on_mount_calls (if phase (headers_hook st) = Fresh then p_onMount p else None))"
      then have "Fetch U H k \<in> set (effects (headers_hook st))"
        by (auto dest: on_mount_calls_set)
      with fx show ?thesis by blast
    next
      assume "\<exists>t. iw_resolved ?st' = Some t \<and> uri t = Some U \<and> U \<noteq> [] \<and> headers t = Some H"
      with res show ?thesis by (auto simp: same_request_def)
    qed
  qed
  with m lr p show ?thesis
    by (auto simp: one_request_def)
qed

lemma iw_step_one_request:
  assumes nh: "not_hash x s"
    and ev: "case ev of IwRender p b \<Rightarrow> same_request s (p_source p) | _ \<Rightarrow> True"
    and inv: "one_request x s st"
  shows "one_request x s (iw_step x st ev)"
proof (cases ev)
  case (IwRender p b)
  show ?thesis
  proof (cases "phase (headers_hook st) = Unmounted")
    case True
    then show ?thesis using inv IwRender by (simp add: iw_step_def iw_render_unmounted)
  next
    case False
    with IwRender ev iw_render_one_request [OF nh _ inv False] show ?thesis
      by (simp add: iw_step_def)
  qed
next
  case (IwSettle i outcome)
  let ?st1 = "st\<lparr>headers_hook := fst (uh_settle (headers_hook st) i outcome)\<rparr>"
  have "Fetch U H k \<in> set (effects (headers_hook st))"
    if "Fetch U H k \<in> set (effects (fst (uh_settle (headers_hook st) i outcome)))" for U H k
    using that by (rule uh_settle_fetch)
  then have one: "one_request x s ?st1"
    using inv by (simp add: one_request_def uh_settle_phase) blast
  show ?thesis
  proof (cases "snd (uh_settle (headers_hook st) i outcome)")
    case True
    show ?thesis
    proof (cases "last_render st")
      case None
      with True IwSettle one show ?thesis by (simp add: iw_step_def Let_def)
    next
      case (Some r)
      then have "same_request s (p_source (fst r))"
        using inv by (cases r) (simp add: one_request_def)
      moreover have "phase (headers_hook ?st1) \<noteq> Unmounted"
        using uh_settle_changed(2) [OF True] by simp
      ultimately have "one_request x s (iw_render x ?st1 (fst r) (snd r))"
        using iw_render_one_request [OF nh _ one] by blast
      with True IwSettle Some show ?thesis by (simp add: iw_step_def Let_def)
    qed
  next
    case False
    with IwSettle one show ?thesis by (simp add: iw_step_def Let_def)
  qed
next
  case IwUnmount
  have "phase (uh_unmount (headers_hook st)) \<noteq> Mounted"
    by (simp add: uh_unmount_def)
  moreover have "Fetch U H k \<in> set (effects (headers_hook st))"
    if "Fetch U H k \<in> set (effects (uh_unmount (headers_hook st)))" for U H k
    using that by (rule uh_unmount_fetch)
  ultimately show ?thesis
    using inv IwUnmount by (simp add: iw_step_def one_request_def) blast
qed

lemma iw_run_one_request:
  assumes "not_hash x s" and "only_source s evs"
  shows "one_request x s (iw_run x evs)"
  using assms(2)
proof (induction evs rule: rev_induct)
  case Nil
  show ?case by (simp add: iw_run_def iw_init_def uh_init_def one_request_def)
next
  case (snoc ev evs)
  then have "one_request x s (iw_run x evs)"
    and "case ev of IwRender p b \<Rightarrow> same_request s (p_source p) | _ \<Rightarrow> True"
    by (simp_all add: only_source_def)
  then show ?case
    using iw_step_one_request [OF assms(1)] by (simp add: iw_run_snoc)
qed

text \<open>What such a component shows when the request has headers.\<close>

lemma rendered_one_request:
  assumes h: "headers s \<noteq> None" and nh: "not_hash x s" and os: "only_source s evs"
  shows "rendered (iw_run x evs) =
           (if phase (headers_hook (iw_run x evs)) = Mounted
               \<and> objectURL (headers_hook (iw_run x evs)) \<noteq> None
            then Some \<lparr>img_src = objectURL (headers_hook (iw_run x evs)), img_key = uri s\<rparr>
            else None)"
proof (cases "phase (headers_hook (iw_run x evs)) = Mounted")
  case True
  let ?st = "iw_run x evs"
  have one: "one_request x s ?st" by (rule iw_run_one_request [OF nh os])
  with True obtain m where "hashes_memo ?st = Some m" "same_request s (resolvedSource (snd m))"
    by (auto simp: one_request_def)
  with h have hh: "has_headers (iw_resolved ?st)"
    by (auto simp: iw_resolved_def has_headers_def same_request_def split: option.splits)
  from iw_run_invariant [of x evs] True obtain p b where lr: "last_render ?st = Some (p, b)"
    by (auto simp: iw_linked_def)
  with one have "same_request s (p_source p)" by (simp add: one_request_def)
  then have "(case p_source p of None \<Rightarrow> None | Some q \<Rightarrow> uri q) = uri s"
    by (auto simp: same_request_def split: option.splits)
  with lr True show ?thesis
    by (simp add: rendered_with_headers [OF hh])
next
  case False
  then show ?thesis using iw_run_invariant [of x evs] by (simp add: iw_linked_def)
qed

subsection \<open>Revocation of the object URL\<close>

text \<open>
  C8. In every life of the hook, a step adds its effects to those already there, and
  the URLs it revokes are: the previous \<open>objectURL\<close>, once, when the step replaces
  \<open>objectURL\<close> by another value or tears the mounted component down and the previous
  value is not \<open>null\<close>; none in every other case.
\<close>

theorem revoke_when_replaced_or_torn_down:
  "effects (uh_step (uh_run evs) ev) =
     effects (uh_run evs) @ new_effects (uh_run evs) (uh_step (uh_run evs) ev) \<and>
   revoked (new_effects (uh_run evs) (uh_step (uh_run evs) ev)) =
     (if objectURL (uh_step (uh_run evs) ev) \<noteq> objectURL (uh_run evs) \<or>
         (phase (uh_run evs) = Mounted \<and> phase (uh_step (uh_run evs) ev) = Unmounted)
      then (case objectURL (uh_run evs) of Some u \<Rightarrow> [u] | None \<Rightarrow> [])
      else [])"
proof -
  let ?st = "uh_run evs"
  have st: "hook_stable ?st" by (rule uh_run_stable)
  have key: "\<exists>es. effects (uh_step ?st ev) = effects ?st @ es \<and>
     revoked es =
       (if objectURL (uh_step ?st ev) \<noteq> objectURL ?st \<or>
           (phase ?st = Mounted \<and> phase (uh_step ?st ev) = Unmounted)
        then (case objectURL ?st of Some u \<Rightarrow> [u] | None \<Rightarrow> [])
        else [])"
  proof (cases ev)
    case (Render src c e)
    have "phase (uh_render ?st src c e) = Unmounted \<longleftrightarrow> phase ?st = Unmounted"
      by (simp add: uh_render_def Let_def)
    then show ?thesis
      using Render uh_render_new_effects [OF st, of src c e]
      by (auto simp: uh_step_def uh_render_objectURL)
  next
    case (Settle i outcome)
    show ?thesis
    proof (cases "snd (uh_settle ?st i outcome)")
      case True
      let ?s = "fst (uh_settle ?st i outcome)"
      obtain src c e where a: "args ?s = Some (src, c, e)"
        using stable_synced [OF st] uh_settle_changed(1,3) [OF True] by auto
      from uh_rerender_new_effects [OF st True, of src c e]
      obtain es where es: "effects (uh_render ?s src c e) = effects ?s @ es"
        "revoked es = (case objectURL ?st of Some u \<Rightarrow> [u] | None \<Rightarrow> [])" by blast
      from uh_settle_changed(7) [OF True]
      obtain u where cu: "effects ?s = effects ?st @ [CreateObjectURL u]" by blast
      have step: "uh_step ?st ev = uh_render ?s src c e"
        using Settle True a by (simp add: uh_step_def Let_def)
      have ch: "objectURL (uh_step ?st ev) \<noteq> objectURL ?st"
        using uh_settle_changed(5) [OF True] by (simp add: step uh_render_objectURL)
      have "effects (uh_step ?st ev) = effects ?st @ (CreateObjectURL u # es)"
        by (simp add: step es cu)
      moreover have "revoked (CreateObjectURL u # es) = revoked es"
        by (simp add: revoked_def)
      ultimately show ?thesis using ch es(2) by metis
    next
      case False
      then have "uh_step ?st ev = fst (uh_settle ?st i outcome)"
        using Settle by (simp add: uh_step_def Let_def)
      then show ?thesis
        using uh_settle_new_effects [of ?st i outcome] uh_settle_unchanged(1,2) [OF False]
        by auto
    qed
  next
    case Unmount
    have "phase (uh_unmount ?st) = Unmounted \<longleftrightarrow> phase ?st = Mounted \<or> phase ?st = Unmounted"
      by (simp add: uh_unmount_def)
    then show ?thesis
      using Unmount uh_unmount_new_effects [OF st]
      by (auto simp: uh_step_def uh_unmount_objectURL)
  qed
  then obtain es where "effects (uh_step ?st ev) = effects ?st @ es" and
    "revoked es =
       (if objectURL (uh_step ?st ev) \<noteq> objectURL ?st \<or>
           (phase ?st = Mounted \<and> phase (uh_step ?st ev) = Unmounted)
        then (case objectURL ?st of Some u \<Rightarrow> [u] | None \<Rightarrow> [])
        else [])" by blast
  then show ?thesis by (simp add: new_effects_def)
qed

text \<open>Teardown and replacement revoke \<open>blob:1\<close>; a render with another source revokes nothing.\<close>

theorem revoke_when_replaced_or_torn_down_witness:
  "revoked (new_effects (uh_run hook_events) (uh_step (uh_run hook_events) Unmount)) = [''blob:1''] \<and>
   revoked (new_effects (uh_run (hook_events @ [Render (Some (auth_source 2 ''https://e/b.png'')) None None]))
              (uh_step (uh_run (hook_events @ [Render (Some (auth_source 2 ''https://e/b.png'')) None None]))
                 (Settle 0 (Fulfilled ''2'')))) = [''blob:1''] \<and>
   revoked (new_effects (uh_run hook_events)
              (uh_step (uh_run hook_events)
                 (Render (Some (auth_source 2 ''https://e/b.png'')) None None))) = []"
proof -
  let ?evs = "hook_events @ [Render (Some (auth_source 2 ''https://e/b.png'')) None None]"
  have a: "objectURL (uh_run ?evs) = Some ''blob:1''"
    "objectURL (uh_step (uh_run ?evs) (Settle 0 (Fulfilled ''2''))) = Some ''blob:2''"
    by (simp_all add: hook_events_def image_defs)
  have b: "objectURL (uh_step (uh_run hook_events) (Render (Some (auth_source 2 ''https://e/b.png'')) None None))
             = Some ''blob:1''"
    "phase (uh_step (uh_run hook_events) (Render (Some (auth_source 2 ''https://e/b.png'')) None None))
             = Mounted"
    by (simp_all add: hook_events_def image_defs)
  show ?thesis
    using revoke_when_replaced_or_torn_down [of hook_events Unmount]
      revoke_when_replaced_or_torn_down [of ?evs "Settle 0 (Fulfilled ''2'')"]
      revoke_when_replaced_or_torn_down [of hook_events "Render (Some (auth_source 2 ''https://e/b.png'')) None None"]
      hook_events_run a b
    by simp
qed

subsection \<open>Sources with headers and no URI\<close>

lemma fetch_call_without_uri: "headers_without_uri src \<Longrightarrow> fetch_call src c e = []"
  by (simp add: fetch_call_def started_fetch_without_uri)

text \<open>A render with such a source starts nothing and does nothing outside.\<close>

lemma uh_render_without_uri:
  assumes "hook_stable st" and "headers_without_uri src"
  shows "pending (uh_render st src c e) = pending st"
    and "effects (uh_render st src c e) = effects st"
proof -
  show "pending (uh_render st src c e) = pending st"
    by (simp add: uh_render_def Let_def started_fetch_without_uri [OF assms(2)])
  have "revocation (url_cleanup st) = []"
    if "phase st \<noteq> Unmounted" "url_cleanup st \<noteq> Some (objectURL st)"
  proof (cases "phase st")
    case Fresh
    then show ?thesis
      using reach_phase [OF stable_reach [OF assms(1)]] by (simp add: revocation_def)
  next
    case Mounted
    with stable_synced [OF assms(1)] that(2) show ?thesis by simp
  next
    case Unmounted
    with that(1) show ?thesis by simp
  qed
  then show "effects (uh_render st src c e) = effects st"
    by (simp add: uh_render_effects fetch_call_without_uri [OF assms(2)])
qed

text \<open>What the hook returns for such a source, and what the component then shows.\<close>

lemma returned_without_uri:
  assumes "hook_stable st" and "args st = Some (Some s, c, e)" and "headers_without_uri (Some s)"
  shows "objectURL st = None \<Longrightarrow> returned st = None"
    and "phase st = Mounted \<Longrightarrow> objectURL st = Some u \<Longrightarrow>
           \<exists>n. returned st = Some (s\<lparr>ident := Made n, uri := Some u\<rparr>)"
proof -
  have hs: "headers s \<noteq> None"
    using assms(3) by (simp add: headers_without_uri_def)
  have ph: "phase st \<noteq> Fresh"
    using reach_phase [OF stable_reach [OF assms(1)]] assms(2) by auto
  show "returned st = None" if "objectURL st = None"
  proof (cases "phase st")
    case Mounted
    with stable_synced [OF assms(1)] assms(2) that hs show ?thesis
      by (auto simp: useHeaders_result_def truthy_def)
  next
    case Unmounted
    then show ?thesis using reach_phase [OF stable_reach [OF assms(1)]] by simp
  next
    case Fresh
    with ph show ?thesis by simp
  qed
  show "\<exists>n. returned st = Some (s\<lparr>ident := Made n, uri := Some u\<rparr>)"
    if "phase st = Mounted" "objectURL st = Some u"
  proof -
    have "u \<noteq> []"
      using reach_objectURL [OF stable_reach [OF assms(1)] that(2)] by simp
    with stable_synced [OF assms(1) that(1)] assms(2) that(2) hs show ?thesis
      by (auto simp: useHeaders_result_def truthy_def)
  qed
qed

lemma rendered_without_uri:
  assumes "args (headers_hook (iw_run x evs)) = Some (Some s, c, e)"
    and "headers_without_uri (Some s)"
    and "objectURL (headers_hook (iw_run x evs)) = None"
  shows "rendered (iw_run x evs) = None"
proof (cases "phase (headers_hook (iw_run x evs)) = Mounted")
  case True
  have "returned (headers_hook (iw_run x evs)) = None"
    using returned_without_uri(1) [OF _ assms(1,2,3)] iw_run_invariant [of x evs] by blast
  with True iw_run_invariant [of x evs] show ?thesis
    by (auto simp: iw_linked_def ImageWrapper_view_def)
next
  case False
  then show ?thesis using iw_run_invariant [of x evs] by (simp add: iw_linked_def)
qed

text \<open>A component that is only given such sources never fetches and never has an object URL.\<close>

lemma idle_one_request:
  assumes "headers_without_uri (Some s)" and "not_hash x s" and "only_source s evs"
  shows "\<forall>f \<in> set (effects (headers_hook (iw_run x evs))). \<not> is_fetch f"
    and "objectURL (headers_hook (iw_run x evs)) = None"
    and "rendered (iw_run x evs) = None"
proof -
  let ?h = "headers_hook (iw_run x evs)"
  have r: "hook_reach ?h"
    using iw_run_invariant [of x evs] stable_reach by blast
  have one: "one_request x s (iw_run x evs)"
    by (rule iw_run_one_request [OF assms(2,3)])
  show nf: "\<forall>f \<in> set (effects ?h). \<not> is_fetch f"
  proof
    fix f assume f: "f \<in> set (effects ?h)"
    show "\<not> is_fetch f"
    proof
      assume "is_fetch f"
      from is_fetch_Fetch [OF this] obtain u hs k where "f = Fetch u hs k" by blast
      with f one_request_fetch [OF one] have "uri s = Some u" "u \<noteq> []" by blast+
      with assms(1) show False by (simp add: headers_without_uri_def truthy_def)
    qed
  qed
  show nu: "objectURL ?h = None"
  proof (cases "objectURL ?h")
    case (Some u)
    with reach_objectURL [OF r] have "CreateObjectURL u \<in> set (effects ?h)" by simp
    with reach_fetch_first [OF r] nf show ?thesis by blast
  qed simp
  have "headers s \<noteq> None"
    using assms(1) by (simp add: headers_without_uri_def)
  from rendered_one_request [OF this assms(2,3)] nu show "rendered (iw_run x evs) = None"
    by simp
qed

text \<open>
  C10, as the code has it. Let \<open>s\<close> be a source with headers and an empty or missing
  URI. In every life of the hook, a render with \<open>s\<close> starts no fetch and does nothing
  outside the component, and no \<open>onError\<close> callback is ever called with \<open>s\<close>, in the
  hook alone and in the component. While the hook was last rendered with \<open>s\<close>: it
  returns \<open>null\<close> if it holds no object URL, and \<open>ImageWrapper\<close> then renders
  nothing; if it is mounted and holds an object URL, left by the fetch of an earlier
  source, it returns \<open>s\<close> with that URL as URI. A component that in every render is
  given a source with the URI and headers of \<open>s\<close> (no placeholder hash) never calls
  \<open>fetch\<close>, never holds an object URL and always renders nothing.
\<close>

theorem headers_without_uri_idle:
  assumes "headers_without_uri (Some s)"
  shows "pending (uh_step (uh_run evs) (Render (Some s) c e)) = pending (uh_run evs) \<and>
         effects (uh_step (uh_run evs) (Render (Some s) c e)) = effects (uh_run evs) \<and>
         (\<forall>cb. OnErrorCall cb s \<notin> set (effects (uh_run evs))) \<and>
         (\<forall>cb. OnErrorCall cb s \<notin> set (effects (headers_hook (iw_run x ievs)))) \<and>
         (\<forall>c' e'. args (uh_run evs) = Some (Some s, c', e') \<longrightarrow>
            (objectURL (uh_run evs) = None \<longrightarrow> returned (uh_run evs) = None) \<and>
            (\<forall>u. phase (uh_run evs) = Mounted \<and> objectURL (uh_run evs) = Some u \<longrightarrow>
               (\<exists>n. returned (uh_run evs) = Some (s\<lparr>ident := Made n, uri := Some u\<rparr>)))) \<and>
         (\<forall>c' e'. args (headers_hook (iw_run x ievs)) = Some (Some s, c', e') \<and>
                  objectURL (headers_hook (iw_run x ievs)) = None \<longrightarrow>
            rendered (iw_run x ievs) = None) \<and>
         (not_hash x s \<and> only_source s ievs \<longrightarrow>
            (\<forall>f \<in> set (effects (headers_hook (iw_run x ievs))). \<not> is_fetch f) \<and>
            objectURL (headers_hook (iw_run x ievs)) = None \<and>
            rendered (iw_run x ievs) = None)"
proof -
  have st: "hook_stable (uh_run evs)" by (rule uh_run_stable)
  have ist: "hook_stable (headers_hook (iw_run x ievs))"
    using iw_run_invariant [of x ievs] by simp
  have a: "pending (uh_step (uh_run evs) (Render (Some s) c e)) = pending (uh_run evs)"
    and b: "effects (uh_step (uh_run evs) (Render (Some s) c e)) = effects (uh_run evs)"
    using uh_render_without_uri [OF st assms] by (simp_all add: uh_step_def)
  have c: "\<forall>cb. OnErrorCall cb s \<notin> set (effects (uh_run evs))"
    using on_error_never_without_uri [OF stable_reach [OF st]] assms by blast
  have d: "\<forall>cb. OnErrorCall cb s \<notin> set (effects (headers_hook (iw_run x ievs)))"
    using on_error_never_without_uri [OF stable_reach [OF ist]] assms by blast
  have f: "\<forall>c' e'. args (uh_run evs) = Some (Some s, c', e') \<longrightarrow>
            (objectURL (uh_run evs) = None \<longrightarrow> returned (uh_run evs) = None) \<and>
            (\<forall>u. phase (uh_run evs) = Mounted \<and> objectURL (uh_run evs) = Some u \<longrightarrow>
               (\<exists>n. returned (uh_run evs) = Some (s\<lparr>ident := Made n, uri := Some u\<rparr>)))"
    using returned_without_uri [OF st _ assms] by blast
  have g: "\<forall>c' e'. args (headers_hook (iw_run x ievs)) = Some (Some s, c', e') \<and>
                  objectURL (headers_hook (iw_run x ievs)) = None \<longrightarrow>
            rendered (iw_run x ievs) = None"
    using rendered_without_uri [of x ievs s _ _, OF _ assms] by blast
  have h: "not_hash x s \<and> only_source s ievs \<longrightarrow>
            (\<forall>f \<in> set (effects (headers_hook (iw_run x ievs))). \<not> is_fetch f) \<and>
            objectURL (headers_hook (iw_run x ievs)) = None \<and>
            rendered (iw_run x ievs) = None"
    using idle_one_request [OF assms, of x ievs] by blast
  show ?thesis
    using a b c d f g h by - (intro conjI, assumption+)
qed

text \<open>
  A render with the empty URI after a fetch has ended well, and at mount; a component
  that is given the empty URI twice.
\<close>

theorem headers_without_uri_idle_witness:
  "headers_without_uri (Some (auth_source 2 [])) \<and>
   pending (uh_step (uh_run hook_events) (Render (Some (auth_source 2 [])) None None)) = [] \<and>
   effects (uh_step (uh_run hook_events) (Render (Some (auth_source 2 [])) None None)) =
     [Fetch ''https://e/a.png'' [(''Authorization'', ''Bearer t'')] ''default'',
      CreateObjectURL ''blob:1''] \<and>
   args (uh_run (hook_events @ [Render (Some (auth_source 2 [])) None None])) =
     Some (Some (auth_source 2 []), None, None) \<and>
   objectURL (uh_run (hook_events @ [Render (Some (auth_source 2 [])) None None])) = Some ''blob:1'' \<and>
   map_option uri (returned (uh_run (hook_events @ [Render (Some (auth_source 2 [])) None None]))) =
     Some (Some ''blob:1'') \<and>
   args (uh_run [Render (Some (auth_source 2 [])) None None]) =
     Some (Some (auth_source 2 []), None, None) \<and>
   objectURL (uh_run [Render (Some (auth_source 2 [])) None None]) = None \<and>
   returned (uh_run [Render (Some (auth_source 2 [])) None None]) = None \<and>
   headers_without_uri (Some (auth_source 1 [])) \<and>
   not_hash sample_utils (auth_source 1 []) \<and>
   only_source (auth_source 1 []) idle_life \<and>
   args (headers_hook (iw_run sample_utils idle_life)) =
     Some (Some (auth_source 1 []), None, Some [Some (Returns 0), None, Some (Returns 1)]) \<and>
   objectURL (headers_hook (iw_run sample_utils idle_life)) = None \<and>
   effects (headers_hook (iw_run sample_utils idle_life)) = [] \<and>
   rendered (iw_run sample_utils idle_life) = None"
proof -
  let ?s = "auth_source 2 []"
  let ?after = "hook_events @ [Render (Some ?s) None None]"
  let ?alone = "[Render (Some ?s) None None]"
  have h: "headers_without_uri (Some ?s)"
    by (simp add: headers_without_uri_def auth_source_def plain_source_def truthy_def)
  have h1: "headers_without_uri (Some (auth_source 1 []))"
    by (simp add: headers_without_uri_def auth_source_def plain_source_def truthy_def)
  have n: "not_hash sample_utils (auth_source 1 [])"
    by (simp add: not_hash_def sample_utils_def uri_or_empty_def auth_source_def plain_source_def)
  have o: "only_source (auth_source 1 []) idle_life"
    by (simp add: only_source_def idle_life_def same_request_def props_of_def auth_source_def
          plain_source_def)
  have given: "args (headers_hook (iw_run sample_utils idle_life)) =
     Some (Some (auth_source 1 []), None, Some [Some (Returns 0), None, Some (Returns 1)])"
    by (simp add: idle_life_def image_defs)
  have before: "pending (uh_run hook_events) = []"
    "effects (uh_run hook_events) =
       [Fetch ''https://e/a.png'' [(''Authorization'', ''Bearer t'')] ''default'',
        CreateObjectURL ''blob:1'']"
    by (simp_all add: hook_events_def image_defs)
  have after: "args (uh_run ?after) = Some (Some ?s, None, None)"
    "objectURL (uh_run ?after) = Some ''blob:1''" "phase (uh_run ?after) = Mounted"
    by (simp_all add: hook_events_def image_defs)
  have alone: "args (uh_run ?alone) = Some (Some ?s, None, None)"
    "objectURL (uh_run ?alone) = None"
    by (simp_all add: image_defs)
  have quiet: "effects (headers_hook (iw_run sample_utils idle_life)) = []"
    by (simp add: idle_life_def image_defs)
  from headers_without_uri_idle [OF h, of ?after None None sample_utils idle_life] after
  obtain k where "returned (uh_run ?after) = Some (?s\<lparr>ident := Made k, uri := Some ''blob:1''\<rparr>)"
    by blast
  then have r1: "map_option uri (returned (uh_run ?after)) = Some (Some ''blob:1'')"
    by simp
  from headers_without_uri_idle [OF h, of ?alone None None sample_utils idle_life] alone
  have r2: "returned (uh_run ?alone) = None"
    by blast
  from headers_without_uri_idle [OF h, of hook_events None None sample_utils idle_life]
  have r4: "pending (uh_step (uh_run hook_events) (Render (Some ?s) None None)) = pending (uh_run hook_events)"
    and r5: "effects (uh_step (uh_run hook_events) (Render (Some ?s) None None)) = effects (uh_run hook_events)"
    by blast+
  from headers_without_uri_idle [OF h1, of hook_events None None sample_utils idle_life] n o
  have r3: "rendered (iw_run sample_utils idle_life) = None"
    and r6: "objectURL (headers_hook (iw_run sample_utils idle_life)) = None"
    by blast+
  from headers_without_uri_idle [OF h1, of hook_events None None sample_utils idle_life] given r6
  have r7: "rendered (iw_run sample_utils idle_life) = None"
    by blast
  show ?thesis
    using h h1 n o given before after(1,2) alone r1 r2 r3 r4 r5 r6 r7 quiet by simp
qed

text \<open>
  C10 as stated fails: \<open>objectURL\<close> outlives a change of source. After the fetch of
  a first source has ended well, the hook rendered with a source with headers and the
  empty URI returns that source with the object URL of the first. A component whose
  source changes that way (here by way of a placeholder, which makes \<open>useImageHashes\<close>
  compute again) renders an \<open>img\<close> for the source with the empty URI.
\<close>

theorem stale_object_url_returned:
  "headers_without_uri (Some (auth_source 2 [])) \<and>
   returned (uh_run (hook_events @ [Render (Some (auth_source 2 [])) None None])) =
     Some ((auth_source 2 [])\<lparr>ident := Made 1, uri := Some ''blob:1''\<rparr>) \<and>
   headers_without_uri (Some (auth_source 3 [])) \<and>
   iw_resolved (iw_run sample_utils source_to_empty) = Some (auth_source 3 []) \<and>
   args (headers_hook (iw_run sample_utils source_to_empty)) =
     Some (Some (auth_source 3 []), None, Some [Some (Returns 0), None, Some (Returns 1)]) \<and>
   effects (headers_hook (iw_run sample_utils source_to_empty)) =
     [Fetch ''https://e/a.png'' [(''Authorization'', ''Bearer t'')] ''default'',
      CreateObjectURL ''blob:1''] \<and>
   rendered (iw_run sample_utils source_to_empty) =
     Some \<lparr>img_src = Some ''blob:1'', img_key = Some []\<rparr>"
  by (simp add: hook_events_def source_to_empty_def headers_without_uri_def image_defs)

subsection \<open>Nothing is rendered before an object URL exists\<close>




subsection \<open>A fetch that fails\<close>

lemma try_block_fails:
  "(\<exists>error. try_block outcome = Inl error) \<longleftrightarrow> (\<forall>name. outcome \<noteq> Fulfilled name)"
  by (cases outcome) (simp_all add: try_block_def)

text \<open>
  The calls of \<open>forEach\<close> in terms of the callbacks that are not \<open>null\<close>: those that
  return are called up to the first one that throws, which is called too and whose
  error leaves the loop.
\<close>

lemma forEach_onError_calls:
  "forEach_onError cbs src =
     (map (\<lambda>cb. OnErrorCall (cb_id cb) src) (takeWhile is_Returns (List.map_filter (\<lambda>e. e) cbs))
        @ (case dropWhile is_Returns (List.map_filter (\<lambda>e. e) cbs) of
             [] \<Rightarrow> [] | cb # rest \<Rightarrow> [OnErrorCall (cb_id cb) src]),
      (case dropWhile is_Returns (List.map_filter (\<lambda>e. e) cbs) of
         [] \<Rightarrow> None | cb # rest \<Rightarrow> Some (thrown cb)))"
  by (induction cbs src rule: forEach_onError.induct) (simp_all add: List.map_filter_simps)

lemma thrown_last:
  "(case d of [] \<Rightarrow> [] | cb # rest \<Rightarrow> [f cb])
     @ (case (case d of [] \<Rightarrow> None | cb # rest \<Rightarrow> Some (g cb)) of None \<Rightarrow> [] | Some e \<Rightarrow> [h e]) =
   (case d of [] \<Rightarrow> [] | cb # rest \<Rightarrow> [f cb, h (g cb)])"
  by (cases d) simp_all

lemma on_error_calls_live:
  "fst (on_error_calls onError src)
     @ (case snd (on_error_calls onError src) of None \<Rightarrow> [] | Some e \<Rightarrow> [UnhandledRejection e]) =
   map (\<lambda>cb. OnErrorCall (cb_id cb) src)
       (takeWhile is_Returns (case onError of None \<Rightarrow> [] | Some cbs \<Rightarrow> List.map_filter (\<lambda>e. e) cbs))
     @ (case dropWhile is_Returns
               (case onError of None \<Rightarrow> [] | Some cbs \<Rightarrow> List.map_filter (\<lambda>e. e) cbs) of
          [] \<Rightarrow> []
        | cb # rest \<Rightarrow> [OnErrorCall (cb_id cb) src, UnhandledRejection (thrown cb)])"
proof (cases onError)
  case None
  then show ?thesis by (simp add: on_error_calls_def)
next
  case (Some cbs)
  then show ?thesis
    by (simp add: on_error_calls_def forEach_onError_calls thrown_last)
qed

text \<open>
  C5, as the code has it. A started fetch fails (\<open>fetch\<close> rejects, the response is
  not ok, or reading the blob rejects). The error is logged with \<open>console.error\<close>.
  Then the callbacks of the \<open>onError\<close> list of the render that started the fetch
  that are not \<open>null\<close> are called in order, with the source of that render, up to
  and including the first one that throws. If none throws, every one of them has been
  called and nothing leaves the asynchronous function. If one throws, the ones after it
  are not called and its error rejects the promise of the asynchronous function, which
  nothing handles. The fetch is not tried again. The failure changes neither
  \<open>objectURL\<close> nor what is rendered: a component that is only given sources with the
  URI and headers of a source \<open>s\<close> with headers, no placeholder hash, and that holds
  no object URL, still renders nothing.
\<close>

theorem failed_fetch_reported:
  assumes "i < length (pending (headers_hook (iw_run x evs)))"
    and "try_block outcome = Inl error"
  shows "effects (headers_hook (iw_step x (iw_run x evs) (IwSettle i outcome))) =
           effects (headers_hook (iw_run x evs)) @
             ConsoleError error #
             map (\<lambda>cb. OnErrorCall (cb_id cb) (task_source (pending (headers_hook (iw_run x evs)) ! i)))
               (takeWhile is_Returns
                  (case task_onError (pending (headers_hook (iw_run x evs)) ! i) of
                     None \<Rightarrow> [] | Some cbs \<Rightarrow> List.map_filter (\<lambda>e. e) cbs))
             @ (case dropWhile is_Returns
                       (case task_onError (pending (headers_hook (iw_run x evs)) ! i) of
                          None \<Rightarrow> [] | Some cbs \<Rightarrow> List.map_filter (\<lambda>e. e) cbs) of
                  [] \<Rightarrow> []
                | cb # rest \<Rightarrow>
                    [OnErrorCall (cb_id cb) (task_source (pending (headers_hook (iw_run x evs)) ! i)),
                     UnhandledRejection (thrown cb)]) \<and>
         pending (headers_hook (iw_step x (iw_run x evs) (IwSettle i outcome))) =
           take i (pending (headers_hook (iw_run x evs)))
             @ drop (Suc i) (pending (headers_hook (iw_run x evs))) \<and>
         objectURL (headers_hook (iw_step x (iw_run x evs) (IwSettle i outcome))) =
           objectURL (headers_hook (iw_run x evs)) \<and>
         rendered (iw_step x (iw_run x evs) (IwSettle i outcome)) = rendered (iw_run x evs) \<and>
         (headers s \<noteq> None \<and> not_hash x s \<and> only_source s evs \<and>
          objectURL (headers_hook (iw_run x evs)) = None
            \<longrightarrow> rendered (iw_step x (iw_run x evs) (IwSettle i outcome)) = None)"
proof -
  let ?st = "iw_run x evs"
  let ?t = "pending (headers_hook ?st) ! i"
  have quiet: "\<not> snd (uh_settle (headers_hook ?st) i outcome)"
    by (rule uh_settle_fails(1) [OF assms(2)])
  then have step: "iw_step x ?st (IwSettle i outcome) =
      ?st\<lparr>headers_hook := fst (uh_settle (headers_hook ?st) i outcome)\<rparr>"
    by (simp add: iw_step_def Let_def)
  have eff: "effects (fst (uh_settle (headers_hook ?st) i outcome)) =
      effects (headers_hook ?st) @ ConsoleError error #
        (fst (on_error_calls (task_onError ?t) (task_source ?t))
          @ (case snd (on_error_calls (task_onError ?t) (task_source ?t)) of
               None \<Rightarrow> [] | Some e \<Rightarrow> [UnhandledRejection e]))"
    using assms(1) by (simp add: uh_settle_effects settled_effects_fails [OF assms(2)])
  have pen: "pending (fst (uh_settle (headers_hook ?st) i outcome)) =
      take i (pending (headers_hook ?st)) @ drop (Suc i) (pending (headers_hook ?st))"
    using assms by (simp add: uh_settle_def Let_def async_body_def)
  have url: "objectURL (fst (uh_settle (headers_hook ?st) i outcome)) = objectURL (headers_hook ?st)"
    by (rule uh_settle_fails(2) [OF assms(2)])
  have e: "effects (headers_hook (iw_step x ?st (IwSettle i outcome))) =
      effects (headers_hook ?st) @ ConsoleError error #
        (fst (on_error_calls (task_onError ?t) (task_source ?t))
          @ (case snd (on_error_calls (task_onError ?t) (task_source ?t)) of
               None \<Rightarrow> [] | Some e \<Rightarrow> [UnhandledRejection e]))"
    and p: "pending (headers_hook (iw_step x ?st (IwSettle i outcome))) =
      take i (pending (headers_hook ?st)) @ drop (Suc i) (pending (headers_hook ?st))"
    and u: "objectURL (headers_hook (iw_step x ?st (IwSettle i outcome))) =
      objectURL (headers_hook ?st)"
    and r: "rendered (iw_step x ?st (IwSettle i outcome)) = rendered ?st"
    by (simp_all add: step eff pen url)
  note e' = e [unfolded on_error_calls_live]
  have still: "headers s \<noteq> None \<and> not_hash x s \<and> only_source s evs \<and>
      objectURL (headers_hook ?st) = None \<longrightarrow>
      rendered (iw_step x ?st (IwSettle i outcome)) = None"
  proof (intro impI, elim conjE)
    assume "headers s \<noteq> None" "not_hash x s" "only_source s evs"
      and "objectURL (headers_hook ?st) = None"
    then have "rendered ?st = None"
      using rendered_one_request [of s x evs] by simp
    then show "rendered (iw_step x ?st (IwSettle i outcome)) = None"
      by (simp add: r)
  qed
  show ?thesis
    using e' p u r still by - (intro conjI, assumption+)
qed

text \<open>The response 404 to the fetch of the mounted component: both callbacks are called.\<close>

theorem failed_fetch_reported_witness:
  "0 < length (pending (headers_hook (iw_run sample_utils mount_with_headers))) \<and>
   try_block (NotOk 404 ''Not Found'') = Inl (JsError ''Failed to fetch image: 404 Not Found'') \<and>
   headers (auth_source 1 ''https://e/a.png'') \<noteq> None \<and>
   not_hash sample_utils (auth_source 1 ''https://e/a.png'') \<and>
   only_source (auth_source 1 ''https://e/a.png'') mount_with_headers \<and>
   objectURL (headers_hook (iw_run sample_utils mount_with_headers)) = None \<and>
   effects (headers_hook (iw_step sample_utils (iw_run sample_utils mount_with_headers)
                            (IwSettle 0 (NotOk 404 ''Not Found'')))) =
     [Fetch ''https://e/a.png'' [(''Authorization'', ''Bearer t'')] ''default'',
      ConsoleError (JsError ''Failed to fetch image: 404 Not Found''),
      OnErrorCall 0 (auth_source 1 ''https://e/a.png''),
      OnErrorCall 1 (auth_source 1 ''https://e/a.png'')] \<and>
   pending (headers_hook (iw_step sample_utils (iw_run sample_utils mount_with_headers)
                            (IwSettle 0 (NotOk 404 ''Not Found'')))) = [] \<and>
   rendered (iw_step sample_utils (iw_run sample_utils mount_with_headers)
               (IwSettle 0 (NotOk 404 ''Not Found''))) = None"
proof -
  let ?s = "auth_source 1 ''https://e/a.png''"
  have p: "0 < length (pending (headers_hook (iw_run sample_utils mount_with_headers)))"
    by (simp add: mount_with_headers_hook)
  have t: "try_block (NotOk 404 ''Not Found'') = Inl (JsError ''Failed to fetch image: 404 Not Found'')"
    by (simp add: try_block_def show_nat_404)
  have h: "headers ?s \<noteq> None"
    by (simp add: auth_source_def)
  have n: "not_hash sample_utils ?s"
    by (simp add: not_hash_def sample_utils_def uri_or_empty_def auth_source_def plain_source_def)
  have o: "only_source ?s mount_with_headers"
    by (simp add: only_source_def mount_with_headers_def same_request_def props_of_def)
  have u: "objectURL (headers_hook (iw_run sample_utils mount_with_headers)) = None"
    by (simp add: mount_with_headers_hook)
  from failed_fetch_reported [OF p t, of ?s] h n o u
  have "rendered (iw_step sample_utils (iw_run sample_utils mount_with_headers)
               (IwSettle 0 (NotOk 404 ''Not Found''))) = None"
    by blast
  then show ?thesis
    using p t h n o u failed_fetch_reported [OF p t, of ?s]
    by (simp add: mount_with_headers_hook List.map_filter_simps)
qed

text \<open>
  C5 as stated fails, in two ways. A component that shows an image by the object URL
  of an earlier source keeps showing it when the fetch of its new source fails: it does
  not render nothing. And a callback that throws ends the loop: the callbacks after it
  are not called, and the error leaves the asynchronous function.
\<close>

theorem failed_fetch_not_silent:
  "pending (headers_hook (iw_run sample_utils source_change)) =
     [\<lparr>task_source = auth_source 3 ''https://e/b.png'',
       task_onError = Some [Some (Returns 0), None, Some (Returns 1)]\<rparr>] \<and>
   try_block (NotOk 404 ''Not Found'') = Inl (JsError ''Failed to fetch image: 404 Not Found'') \<and>
   rendered (iw_run sample_utils (source_change @ [IwSettle 0 (NotOk 404 ''Not Found'')])) =
     Some \<lparr>img_src = Some ''blob:1'', img_key = Some ''https://e/b.png''\<rparr> \<and>
   p_onError (throwing_props (auth_source 1 ''https://e/a.png'')) =
     Some [Some (Returns 0), Some (Throws 1 (JsError ''boom'')), None, Some (Returns 2)] \<and>
   effects (headers_hook (iw_run sample_utils
       [IwRender (throwing_props (auth_source 1 ''https://e/a.png'')) None,
        IwSettle 0 (Rejected (JsError ''offline''))])) =
     [Fetch ''https://e/a.png'' [(''Authorization'', ''Bearer t'')] ''default'',
      ConsoleError (JsError ''offline''),
      OnErrorCall 0 (auth_source 1 ''https://e/a.png''),
      OnErrorCall 1 (auth_source 1 ''https://e/a.png''),
      UnhandledRejection (JsError ''boom'')] \<and>
   OnErrorCall 2 (auth_source 1 ''https://e/a.png'') \<notin>
     set (effects (headers_hook (iw_run sample_utils
       [IwRender (throwing_props (auth_source 1 ''https://e/a.png'')) None,
        IwSettle 0 (Rejected (JsError ''offline''))])))"
  by (simp add: source_change_def throwing_props_def image_defs show_nat_404)

subsection \<open>Resolution of placeholders\<close>

lemma useImageHashes_first_render:
  "snd (snd (snd (useImageHashes x None None n src blurhash))) =
     \<lparr>resolvedSource =
        (if isBlurhashString x (uri_or_empty src) \<or> isThumbhashString x (uri_or_empty src)
         then first_defined blurhash
                (snd (thumbhash_factory x n (strippedThumbhashString src)
                        (isThumbhashString x (uri_or_empty src))))
         else src),
      isImageHash = (isBlurhashString x (uri_or_empty src) \<or> isThumbhashString x (uri_or_empty src))\<rparr>"
  by (simp add: useImageHashes_def useThumbhash_def Let_def)

text \<open>On the first render of a component the resolution is as C3 says.\<close>

lemma first_render_passes_through:
  assumes "\<not> isBlurhashString x (uri_or_empty src)" and "\<not> isThumbhashString x (uri_or_empty src)"
  shows "resolvedSource (snd (snd (snd (useImageHashes x None None n src blurhash)))) = src"
  using assms by (simp add: useImageHashes_first_render)

lemma first_render_decodes_thumbhash:
  assumes "isThumbhashString x (uri_or_empty src)"
  shows "resolvedSource (snd (snd (snd (useImageHashes x None None n src None)))) =
           Some \<lparr>ident = Made n,
                 uri = Some (thumbHashStringToDataURL x (strippedThumbhashString src)),
                 headers = None, width = None, height = None\<rparr>"
  using assms by (simp add: useImageHashes_first_render thumbhash_factory_def first_defined_def)

text \<open>
  C3, where the code departs from it. The memo of \<open>useImageHashes\<close> depends on
  \<open>[blurhash, thumbhash]\<close> only; rendered with the source \<open>a.png\<close> and then with
  the source \<open>b.png\<close> (neither is a hash, \<open>useBlurhash\<close> returns \<open>null\<close> both
  times), the hook still returns the first source, and the \<open>img\<close> shows it.
\<close>

theorem second_source_not_resolved:
  "\<not> isBlurhashString sample_utils (uri_or_empty (Some (plain_source 2 ''b.png''))) \<and>
   \<not> isThumbhashString sample_utils (uri_or_empty (Some (plain_source 2 ''b.png''))) \<and>
   iw_resolved (iw_run sample_utils two_renders) = Some (plain_source 1 ''a.png'') \<and>
   iw_resolved (iw_run sample_utils two_renders) \<noteq> Some (plain_source 2 ''b.png'') \<and>
   rendered (iw_run sample_utils two_renders) =
     Some \<lparr>img_src = Some ''a.png'', img_key = Some ''b.png''\<rparr>"
  by (simp add: two_renders_def iw_run_def iw_step_def iw_render_def iw_init_def uh_init_def
        useImageHashes_def useThumbhash_def thumbhash_factory_def first_defined_def
        strippedThumbhashString_def uri_or_empty_def same_ref_def
        uh_render_def useHeaders_result_def started_fetch_def revocation_def
        on_mount_calls_def ImageWrapper_view_def iw_resolved_def truthy_def
        sample_utils_def props_of_def plain_source_def Let_def)

end
